theory Spec2Isabelle
  imports Complex_Main
begin

section \<open>SQL values\<close>

text \<open>
  The migrations declare distances as \<^verbatim>\<open>decimal\<close>: exact decimal numbers, modelled as
  rationals. A nullable column is an \<open>option\<close>; a comparison with NULL is NULL (here
  \<open>None\<close>), and \<^verbatim>\<open>IF\<close>, \<^verbatim>\<open>WHERE\<close>, \<^verbatim>\<open>CASE WHEN\<close> and \<^verbatim>\<open>FILTER\<close> take a branch or keep a row
  only when the condition is true. Row identifiers (\<^verbatim>\<open>uuid\<close>) are strings.
\<close>

type_synonym uuid = string

definition sql_ge :: "rat option \<Rightarrow> rat option \<Rightarrow> bool option" where
  "sql_ge a b = (case a of None \<Rightarrow> None | Some x \<Rightarrow> (case b of None \<Rightarrow> None | Some y \<Rightarrow> Some (y \<le> x)))"

definition sql_lt :: "rat option \<Rightarrow> rat option \<Rightarrow> bool option" where
  "sql_lt a b = (case a of None \<Rightarrow> None | Some x \<Rightarrow> (case b of None \<Rightarrow> None | Some y \<Rightarrow> Some (x < y)))"

definition sql_and :: "bool option \<Rightarrow> bool option \<Rightarrow> bool option" where
  "sql_and p q =
     (if p = Some False \<or> q = Some False then Some False
      else if p = Some True \<and> q = Some True then Some True
      else None)"

definition is_true :: "bool option \<Rightarrow> bool" where
  "is_true p = (p = Some True)"

definition coalesce :: "'a option \<Rightarrow> 'a \<Rightarrow> 'a" where
  "coalesce v d = (case v of None \<Rightarrow> d | Some x \<Rightarrow> x)"

text \<open>\<^verbatim>\<open>SUM\<close> over no rows is NULL, otherwise the sum of the values.\<close>

definition sql_sum :: "rat list \<Rightarrow> rat option" where
  "sql_sum xs = (if xs = [] then None else Some (sum_list xs))"

text \<open>An error raised by the database: its SQLSTATE code and its message.\<close>

datatype pg_error = PgError (pg_code: string) (pg_message: string)

subsection \<open>Timestamps\<close>

text \<open>
  A \<^verbatim>\<open>timestamptz\<close> is read in the session's time zone as a calendar date and the
  microseconds since midnight; timestamps compare in calendar order.
\<close>

record timestamp =
  ts_year :: int
  ts_month :: nat
  ts_day :: nat
  ts_usec :: nat

definition ts_less :: "timestamp \<Rightarrow> timestamp \<Rightarrow> bool" where
  "ts_less a b =
     (ts_year a < ts_year b \<or>
      (ts_year a = ts_year b \<and>
       (ts_month a < ts_month b \<or>
        (ts_month a = ts_month b \<and>
         (ts_day a < ts_day b \<or>
          (ts_day a = ts_day b \<and> ts_usec a < ts_usec b))))))"

definition ts_le :: "timestamp \<Rightarrow> timestamp \<Rightarrow> bool" where
  "ts_le a b = (\<not> ts_less b a)"

text \<open>\<^verbatim>\<open>date_trunc('month', t)\<close> and \<^verbatim>\<open>date_trunc('year', t)\<close>.\<close>

definition date_trunc_month :: "timestamp \<Rightarrow> timestamp" where
  "date_trunc_month t = t\<lparr>ts_day := 1, ts_usec := 0\<rparr>"

definition date_trunc_year :: "timestamp \<Rightarrow> timestamp" where
  "date_trunc_year t = t\<lparr>ts_month := 1, ts_day := 1, ts_usec := 0\<rparr>"

definition is_leap_year :: "int \<Rightarrow> bool" where
  "is_leap_year y = (y mod 4 = 0 \<and> (y mod 100 \<noteq> 0 \<or> y mod 400 = 0))"

definition days_in_month :: "int \<Rightarrow> nat \<Rightarrow> nat" where
  "days_in_month y m =
     (if m = 2 then (if is_leap_year y then 29 else 28)
      else if m = 4 \<or> m = 6 \<or> m = 9 \<or> m = 11 then 30
      else 31)"

text \<open>
  \<^verbatim>\<open>t - interval '1 month'\<close>: the month before, the day of the month kept unless that
  month is shorter, in which case its last day is taken.
\<close>

definition minus_one_month :: "timestamp \<Rightarrow> timestamp" where
  "minus_one_month t =
     (let y = (if ts_month t = 1 then ts_year t - 1 else ts_year t);
          m = (if ts_month t = 1 then 12 else ts_month t - 1)
      in t\<lparr>ts_year := y, ts_month := m, ts_day := min (ts_day t) (days_in_month y m)\<rparr>)"

text \<open>\<^verbatim>\<open>MAX\<close> of a timestamp column: NULL over no rows.\<close>

fun ts_max :: "timestamp list \<Rightarrow> timestamp option" where
  "ts_max [] = None"
| "ts_max (t # ts) =
     (case ts_max ts of None \<Rightarrow> Some t | Some m \<Rightarrow> Some (if ts_less t m then m else t))"

section \<open>Access tier\<close>

text \<open>
  \<^verbatim>\<open>calculate_access_tier(miles decimal) RETURNS text\<close>: the first branch of the
  \<^verbatim>\<open>IF / ELSIF\<close> chain whose condition is true; a NULL argument makes every comparison
  NULL and falls to the \<^verbatim>\<open>ELSE\<close>.
\<close>

definition calculate_access_tier :: "rat option \<Rightarrow> string" where
  "calculate_access_tier miles =
     (if is_true (sql_ge miles (Some 150)) then ''exclusive''
      else if is_true (sql_ge miles (Some 100)) then ''premium''
      else if is_true (sql_ge miles (Some 50)) then ''basic''
      else ''none'')"

text \<open>
  The reference step function, as the specification words it: a relation between a
  distance and a tier, one line per band.
\<close>

definition tier_reference :: "rat \<Rightarrow> string \<Rightarrow> bool" where
  "tier_reference m t =
     ((150 \<le> m \<and> t = ''exclusive'') \<or>
      (100 \<le> m \<and> m < 150 \<and> t = ''premium'') \<or>
      (50 \<le> m \<and> m < 100 \<and> t = ''basic'') \<or>
      (m < 50 \<and> t = ''none''))"

section \<open>Activities\<close>

text \<open>
  A row of \<^verbatim>\<open>activities\<close>, with the columns the aggregation, the geofence trigger and
  the importer compute with. The columns the importer only copies from the provider
  (speeds, elevation, heart rate, place names, the manual flag) and the surrogate key
  and bookkeeping timestamps filled by column defaults are left out; no function below
  reads them.
\<close>

record activities_row =
  a_user_id :: uuid
  strava_activity_id :: int
  activity_type :: string
  activity_date :: timestamp
  distance_meters :: rat
  distance_miles :: rat
  moving_time_seconds :: "int option"
  elapsed_time_seconds :: "int option"
  start_latitude :: "rat option"
  start_longitude :: "rat option"
  is_dc_metro_area :: "bool option"

definition is_in_dc_metro :: "rat \<Rightarrow> rat \<Rightarrow> bool" where
  "is_in_dc_metro lat lon =
     (388 / 10 \<le> lat \<and> lat \<le> 392 / 10 \<and> - (775 / 10) \<le> lon \<and> lon \<le> - (769 / 10))"

text \<open>The row trigger \<^verbatim>\<open>calculate_dc_metro_area\<close> (function \<^verbatim>\<open>set_dc_metro_area\<close>).\<close>

definition set_dc_metro_area :: "activities_row \<Rightarrow> activities_row" where
  "set_dc_metro_area NEW =
     (case start_latitude NEW of
        None \<Rightarrow> NEW
      | Some lat \<Rightarrow>
          (case start_longitude NEW of
             None \<Rightarrow> NEW
           | Some lon \<Rightarrow> NEW\<lparr>is_dc_metro_area := Some (is_in_dc_metro lat lon)\<rparr>))"

section \<open>Users\<close>

text \<open>
  A row of \<^verbatim>\<open>users\<close> with the columns the sync function reads and writes; the table is a
  map from the primary key \<^verbatim>\<open>id\<close>. The two instants are milliseconds since the epoch, as
  \<^verbatim>\<open>Date\<close> reads them. The tables \<^verbatim>\<open>mileage_summary\<close> and \<^verbatim>\<open>activities\<close> reference \<^verbatim>\<open>users(id)\<close>.
\<close>

record users_row =
  strava_access_token :: "string option"
  strava_refresh_token :: "string option"
  token_expires_at :: "int option"
  last_synced_at :: "int option"

section \<open>Mileage summary\<close>

record mileage_summary_row =
  ms_user_id :: uuid
  current_month_miles :: "rat option"
  last_month_miles :: "rat option"
  current_year_miles :: "rat option"
  total_miles :: "rat option"
  total_activities :: "int option"
  dc_activities :: "int option"
  last_activity_date :: "timestamp option"
  ms_access_tier :: "string option"
  last_calculated_at :: "timestamp option"
  ms_created_at :: "timestamp option"
  ms_updated_at :: "timestamp option"

text \<open>
  The trigger function \<^verbatim>\<open>update_access_tier\<close>; \<open>now\<close> is the value of \<^verbatim>\<open>now()\<close> in the
  running transaction.
\<close>

definition update_access_tier :: "timestamp \<Rightarrow> mileage_summary_row \<Rightarrow> mileage_summary_row" where
  "update_access_tier now NEW =
     NEW\<lparr>ms_access_tier := Some (calculate_access_tier (current_month_miles NEW)),
         ms_updated_at := Some now\<rparr>"

text \<open>
  The column constraint \<^verbatim>\<open>CHECK (access_tier IN ('none', 'basic', 'premium',
  'exclusive'))\<close>; a CHECK passes on NULL.
\<close>

definition check_access_tier :: "mileage_summary_row \<Rightarrow> bool" where
  "check_access_tier r =
     (case ms_access_tier r of
        None \<Rightarrow> True
      | Some t \<Rightarrow> t = ''none'' \<or> t = ''basic'' \<or> t = ''premium'' \<or> t = ''exclusive'')"

text \<open>
  The \<^verbatim>\<open>SET\<close> list of an \<^verbatim>\<open>UPDATE\<close> of \<^verbatim>\<open>mileage_summary\<close>: one assignment per column, its
  right-hand side evaluated on the row as it was before the statement. (The key
  \<^verbatim>\<open>user_id\<close> is never assigned.)
\<close>

datatype ms_assignment =
    Set_current_month_miles "mileage_summary_row \<Rightarrow> rat option"
  | Set_last_month_miles "mileage_summary_row \<Rightarrow> rat option"
  | Set_current_year_miles "mileage_summary_row \<Rightarrow> rat option"
  | Set_total_miles "mileage_summary_row \<Rightarrow> rat option"
  | Set_total_activities "mileage_summary_row \<Rightarrow> int option"
  | Set_dc_activities "mileage_summary_row \<Rightarrow> int option"
  | Set_last_activity_date "mileage_summary_row \<Rightarrow> timestamp option"
  | Set_access_tier "mileage_summary_row \<Rightarrow> string option"
  | Set_last_calculated_at "mileage_summary_row \<Rightarrow> timestamp option"
  | Set_created_at "mileage_summary_row \<Rightarrow> timestamp option"
  | Set_updated_at "mileage_summary_row \<Rightarrow> timestamp option"

fun assign_column :: "mileage_summary_row \<Rightarrow> ms_assignment \<Rightarrow> mileage_summary_row \<Rightarrow> mileage_summary_row" where
  "assign_column old (Set_current_month_miles e) r = r\<lparr>current_month_miles := e old\<rparr>"
| "assign_column old (Set_last_month_miles e) r = r\<lparr>last_month_miles := e old\<rparr>"
| "assign_column old (Set_current_year_miles e) r = r\<lparr>current_year_miles := e old\<rparr>"
| "assign_column old (Set_total_miles e) r = r\<lparr>total_miles := e old\<rparr>"
| "assign_column old (Set_total_activities e) r = r\<lparr>total_activities := e old\<rparr>"
| "assign_column old (Set_dc_activities e) r = r\<lparr>dc_activities := e old\<rparr>"
| "assign_column old (Set_last_activity_date e) r = r\<lparr>last_activity_date := e old\<rparr>"
| "assign_column old (Set_access_tier e) r = r\<lparr>ms_access_tier := e old\<rparr>"
| "assign_column old (Set_last_calculated_at e) r = r\<lparr>last_calculated_at := e old\<rparr>"
| "assign_column old (Set_created_at e) r = r\<lparr>ms_created_at := e old\<rparr>"
| "assign_column old (Set_updated_at e) r = r\<lparr>ms_updated_at := e old\<rparr>"

fun writes_current_month_miles :: "ms_assignment \<Rightarrow> bool" where
  "writes_current_month_miles (Set_current_month_miles e) = True"
| "writes_current_month_miles a = False"

fun writes_access_tier :: "ms_assignment \<Rightarrow> bool" where
  "writes_access_tier (Set_access_tier e) = True"
| "writes_access_tier a = False"

definition set_columns :: "ms_assignment list \<Rightarrow> mileage_summary_row \<Rightarrow> mileage_summary_row" where
  "set_columns assigns old = fold (assign_column old) assigns old"

text \<open>
  One row of an \<^verbatim>\<open>UPDATE\<close>: the assignments, then the trigger \<^verbatim>\<open>set_access_tier\<close>
  (\<^verbatim>\<open>BEFORE INSERT OR UPDATE OF current_month_miles\<close>), which fires on an update only when
  \<^verbatim>\<open>current_month_miles\<close> is among the assigned columns.
\<close>

definition before_update_row :: "timestamp \<Rightarrow> ms_assignment list \<Rightarrow> mileage_summary_row \<Rightarrow> mileage_summary_row" where
  "before_update_row now assigns old =
     (if list_ex writes_current_month_miles assigns
      then update_access_tier now (set_columns assigns old)
      else set_columns assigns old)"

text \<open>
  \<^verbatim>\<open>UPDATE mileage_summary SET ... WHERE ...\<close>: every row the condition keeps is rewritten;
  a row that fails the CHECK aborts the statement.
\<close>

definition ms_update ::
  "timestamp \<Rightarrow> ms_assignment list \<Rightarrow> (mileage_summary_row \<Rightarrow> bool) \<Rightarrow>
   mileage_summary_row list \<Rightarrow> pg_error + mileage_summary_row list" where
  "ms_update now assigns cond tbl =
     (if list_ex (\<lambda>r. cond r \<and> \<not> check_access_tier (before_update_row now assigns r)) tbl
      then Inl (PgError ''23514'' ''mileage_summary_access_tier_check'')
      else Inr (map (\<lambda>r. if cond r then before_update_row now assigns r else r) tbl))"

text \<open>
  \<^verbatim>\<open>INSERT INTO mileage_summary\<close> of one row: the trigger, the CHECK, the primary key
  \<^verbatim>\<open>user_id\<close>, and at the end of the statement the foreign key
  \<^verbatim>\<open>user_id REFERENCES users(id)\<close>, which refuses a row for an id that \<^verbatim>\<open>users\<close> does not
  hold. (An update never assigns \<^verbatim>\<open>user_id\<close>, so it does not check the foreign key again.)
\<close>

definition ms_insert ::
  "timestamp \<Rightarrow> (uuid \<Rightarrow> users_row option) \<Rightarrow> mileage_summary_row \<Rightarrow>
   mileage_summary_row list \<Rightarrow> pg_error + mileage_summary_row list" where
  "ms_insert now users NEW tbl =
     (let r = update_access_tier now NEW
      in if \<not> check_access_tier r
         then Inl (PgError ''23514'' ''mileage_summary_access_tier_check'')
         else if list_ex (\<lambda>x. ms_user_id x = ms_user_id r) tbl
         then Inl (PgError ''23505'' ''mileage_summary_pkey'')
         else if users (ms_user_id r) = None
         then Inl (PgError ''23503'' ''mileage_summary_user_id_fkey'')
         else Inr (tbl @ [r]))"

text \<open>
  \<^verbatim>\<open>recalculate_user_mileage(p_user_id)\<close>, in two parts. First the row its \<^verbatim>\<open>INSERT\<close>
  proposes: the date boundaries, the one row of the aggregate \<^verbatim>\<open>SELECT\<close> (the query has
  no \<^verbatim>\<open>GROUP BY\<close>, so it yields exactly one row, also when the user has no activity),
  and the defaults of the columns the \<^verbatim>\<open>INSERT\<close> does not list (\<^verbatim>\<open>access_tier\<close> 'none',
  \<^verbatim>\<open>created_at\<close> and \<^verbatim>\<open>updated_at\<close> \<^verbatim>\<open>now()\<close>). The counts (\<^verbatim>\<open>integer\<close> columns) are
  modelled unbounded.
\<close>

definition mileage_select :: "timestamp \<Rightarrow> activities_row list \<Rightarrow> uuid \<Rightarrow> mileage_summary_row" where
  "mileage_select now activities p_user_id =
     (let v_current_month_start = date_trunc_month now;
          v_current_year_start = date_trunc_year now;
          v_last_month_start = date_trunc_month (minus_one_month now);
          v_last_month_end = v_current_month_start;
          rows = filter (\<lambda>a. a_user_id a = p_user_id) activities
      in \<lparr>ms_user_id = p_user_id,
          current_month_miles = Some (coalesce (sql_sum (map (\<lambda>a.
            if ts_le v_current_month_start (activity_date a) \<and> is_dc_metro_area a = Some True
            then distance_miles a else 0) rows)) 0),
          last_month_miles = Some (coalesce (sql_sum (map (\<lambda>a.
            if ts_le v_last_month_start (activity_date a) \<and>
               ts_less (activity_date a) v_last_month_end \<and> is_dc_metro_area a = Some True
            then distance_miles a else 0) rows)) 0),
          current_year_miles = Some (coalesce (sql_sum (map (\<lambda>a.
            if ts_le v_current_year_start (activity_date a) \<and> is_dc_metro_area a = Some True
            then distance_miles a else 0) rows)) 0),
          total_miles = Some (coalesce (sql_sum (map (\<lambda>a.
            if is_dc_metro_area a = Some True then distance_miles a else 0) rows)) 0),
          total_activities = Some (int (length rows)),
          dc_activities = Some (int (length (filter (\<lambda>a. is_dc_metro_area a = Some True) rows))),
          last_activity_date = ts_max (map activity_date rows),
          ms_access_tier = Some ''none'',
          last_calculated_at = Some now,
          ms_created_at = Some now,
          ms_updated_at = Some now\<rparr>)"

text \<open>
  Then \<^verbatim>\<open>INSERT ... ON CONFLICT (user_id) DO UPDATE SET ...\<close>: with no row for the user
  the proposed row is inserted, which the foreign key refuses when \<^verbatim>\<open>users\<close> has no row
  with the id \<^verbatim>\<open>p_user_id\<close>; otherwise the existing row is updated from \<^verbatim>\<open>EXCLUDED\<close>, the
  proposed row after the insert trigger.
\<close>

definition recalculate_user_mileage ::
  "timestamp \<Rightarrow> (uuid \<Rightarrow> users_row option) \<Rightarrow> activities_row list \<Rightarrow>
   mileage_summary_row list \<Rightarrow> uuid \<Rightarrow> pg_error + mileage_summary_row list" where
  "recalculate_user_mileage now users activities tbl p_user_id =
     (let proposed = mileage_select now activities p_user_id;
          excluded = update_access_tier now proposed
      in if list_ex (\<lambda>r. ms_user_id r = p_user_id) tbl
         then ms_update now
                [Set_current_month_miles (\<lambda>r. current_month_miles excluded),
                 Set_last_month_miles (\<lambda>r. last_month_miles excluded),
                 Set_current_year_miles (\<lambda>r. current_year_miles excluded),
                 Set_total_miles (\<lambda>r. total_miles excluded),
                 Set_total_activities (\<lambda>r. total_activities excluded),
                 Set_dc_activities (\<lambda>r. dc_activities excluded),
                 Set_last_activity_date (\<lambda>r. last_activity_date excluded),
                 Set_last_calculated_at (\<lambda>r. Some now)]
                (\<lambda>r. ms_user_id r = p_user_id) tbl
         else ms_insert now users proposed tbl)"

text \<open>
  The states of \<^verbatim>\<open>mileage_summary\<close> that statements can reach from the empty table:
  by an insert, by an update that assigns \<^verbatim>\<open>current_month_miles\<close> or leaves
  \<^verbatim>\<open>access_tier\<close> alone, and by a recalculation. (No statement of the repository assigns
  \<^verbatim>\<open>access_tier\<close> without \<^verbatim>\<open>current_month_miles\<close>.)
\<close>

inductive ms_reachable :: "mileage_summary_row list \<Rightarrow> bool" where
  ms_empty: "ms_reachable []"
| ms_inserted: "ms_reachable tbl \<Longrightarrow> ms_insert now users NEW tbl = Inr tbl' \<Longrightarrow> ms_reachable tbl'"
| ms_updated: "ms_reachable tbl \<Longrightarrow>
     list_ex writes_current_month_miles assigns \<or> \<not> list_ex writes_access_tier assigns \<Longrightarrow>
     ms_update now assigns cond tbl = Inr tbl' \<Longrightarrow> ms_reachable tbl'"
| ms_recalculated: "ms_reachable tbl \<Longrightarrow>
     recalculate_user_mileage now users activities tbl p_user_id = Inr tbl' \<Longrightarrow> ms_reachable tbl'"

definition tier_consistent :: "mileage_summary_row \<Rightarrow> bool" where
  "tier_consistent r = (ms_access_tier r = Some (calculate_access_tier (current_month_miles r)))"

subsection \<open>The windows, as the specification words them\<close>

definition first_instant_of_month :: "int \<Rightarrow> nat \<Rightarrow> timestamp" where
  "first_instant_of_month y m = \<lparr>ts_year = y, ts_month = m, ts_day = 1, ts_usec = 0\<rparr>"

definition start_of_current_month :: "timestamp \<Rightarrow> timestamp" where
  "start_of_current_month now = first_instant_of_month (ts_year now) (ts_month now)"

definition start_of_previous_month :: "timestamp \<Rightarrow> timestamp" where
  "start_of_previous_month now =
     (if ts_month now = 1 then first_instant_of_month (ts_year now - 1) 12
      else first_instant_of_month (ts_year now) (ts_month now - 1))"

definition start_of_current_year :: "timestamp \<Rightarrow> timestamp" where
  "start_of_current_year now = first_instant_of_month (ts_year now) 1"

text \<open>
  The in-region distance of a user over a window of activity dates: the sum of the
  display distances of the user's activities flagged in-region whose date is in the
  window.
\<close>

definition in_region_miles :: "(timestamp \<Rightarrow> bool) \<Rightarrow> uuid \<Rightarrow> activities_row list \<Rightarrow> rat" where
  "in_region_miles window u activities =
     sum_list (map distance_miles
       (filter (\<lambda>a. a_user_id a = u \<and> is_dc_metro_area a = Some True \<and> window (activity_date a))
          activities))"

text \<open>
  The row the \<^verbatim>\<open>DO UPDATE\<close> branch of the recalculation leaves in place of \<open>r\<close>: the
  eight assigned columns taken from the proposed row \<open>sel\<close>, then the update trigger.
\<close>

definition overwritten :: "timestamp \<Rightarrow> mileage_summary_row \<Rightarrow> mileage_summary_row \<Rightarrow> mileage_summary_row" where
  "overwritten now sel r =
     r\<lparr>current_month_miles := current_month_miles sel,
       last_month_miles := last_month_miles sel,
       current_year_miles := current_year_miles sel,
       total_miles := total_miles sel,
       total_activities := total_activities sel,
       dc_activities := dc_activities sel,
       last_activity_date := last_activity_date sel,
       ms_access_tier := Some (calculate_access_tier (current_month_miles sel)),
       last_calculated_at := Some now,
       ms_updated_at := Some now\<rparr>"

subsection \<open>Sample rows\<close>

text \<open>
  Shorthands for the concrete timestamps and stored activities of the examples, and a
  table \<^verbatim>\<open>users\<close> with two users who have not connected the provider.
\<close>

definition at_date :: "int \<Rightarrow> nat \<Rightarrow> nat \<Rightarrow> nat \<Rightarrow> timestamp" where
  "at_date y m d us = \<lparr>ts_year = y, ts_month = m, ts_day = d, ts_usec = us\<rparr>"

definition sample_users :: "uuid \<Rightarrow> users_row option" where
  "sample_users =
     [''u1'' \<mapsto> \<lparr>strava_access_token = None, strava_refresh_token = None,
                  token_expires_at = None, last_synced_at = None\<rparr>,
      ''u2'' \<mapsto> \<lparr>strava_access_token = None, strava_refresh_token = None,
                  token_expires_at = None, last_synced_at = None\<rparr>]"

definition stored_run :: "uuid \<Rightarrow> int \<Rightarrow> timestamp \<Rightarrow> rat \<Rightarrow> rat \<Rightarrow> bool \<Rightarrow> activities_row" where
  "stored_run u i d meters miles dc =
     \<lparr>a_user_id = u, strava_activity_id = i, activity_type = ''Run'', activity_date = d,
      distance_meters = meters, distance_miles = miles, moving_time_seconds = Some 3600,
      elapsed_time_seconds = Some 3700, start_latitude = None, start_longitude = None,
      is_dc_metro_area = Some dc\<rparr>"

section \<open>Drops and drop access\<close>

text \<open>
  A row of \<^verbatim>\<open>drops\<close>: its key and the three nullable thresholds the qualification
  reads (name, slug, dates, flags, image and piece count are not read by it). A row of
  \<^verbatim>\<open>drop_access\<close> without its surrogate key: the table is \<^verbatim>\<open>UNIQUE(drop_id, user_id)\<close>.
\<close>

record drops_row =
  drops_id :: uuid
  required_miles_basic :: "rat option"
  required_miles_premium :: "rat option"
  required_miles_exclusive :: "rat option"

record drop_access_row =
  da_drop_id :: uuid
  da_user_id :: uuid
  da_access_tier :: string
  qualified_at :: "timestamp option"
  mileage_at_qualification :: rat
  notified_at :: "timestamp option"
  first_viewed_at :: "timestamp option"
  da_created_at :: "timestamp option"

text \<open>
  \<^verbatim>\<open>INSERT INTO drop_access (drop_id, user_id, access_tier, mileage_at_qualification)
  SELECT ... ON CONFLICT (drop_id, user_id) DO NOTHING\<close>, row by row: the \<^verbatim>\<open>NOT NULL\<close> of
  \<^verbatim>\<open>mileage_at_qualification\<close> and the CHECK of \<^verbatim>\<open>access_tier\<close> abort the statement, a
  row whose pair is already in the table (or was inserted earlier by the statement) is
  skipped, any other row is appended with the column defaults (\<^verbatim>\<open>qualified_at\<close> and
  \<^verbatim>\<open>created_at\<close> \<^verbatim>\<open>now()\<close>).
\<close>

fun insert_drop_access ::
  "timestamp \<Rightarrow> (uuid \<times> uuid \<times> string \<times> rat option) list \<Rightarrow> drop_access_row list \<Rightarrow>
   pg_error + drop_access_row list" where
  "insert_drop_access now [] tbl = Inr tbl"
| "insert_drop_access now ((d, u, t, m) # rest) tbl =
     (case m of
        None \<Rightarrow> Inl (PgError ''23502'' ''mileage_at_qualification'')
      | Some miles \<Rightarrow>
          if \<not> (t = ''basic'' \<or> t = ''premium'' \<or> t = ''exclusive'')
          then Inl (PgError ''23514'' ''drop_access_access_tier_check'')
          else if list_ex (\<lambda>g. da_drop_id g = d \<and> da_user_id g = u) tbl
          then insert_drop_access now rest tbl
          else insert_drop_access now rest
                 (tbl @ [\<lparr>da_drop_id = d, da_user_id = u, da_access_tier = t,
                          qualified_at = Some now, mileage_at_qualification = miles,
                          notified_at = None, first_viewed_at = None,
                          da_created_at = Some now\<rparr>]))"

text \<open>
  \<^verbatim>\<open>grant_drop_access_to_qualifying_users(p_drop_id) RETURNS integer\<close>. The result is the
  error raised, or the returned count with the table \<^verbatim>\<open>drop_access\<close> as the call leaves it
  (an error rolls the call back). \<^verbatim>\<open>v_granted_count\<close> is assigned after the first
  insert and assigned again by the final \<^verbatim>\<open>SELECT COUNT(*) INTO\<close>. The count is modelled
  unbounded.
\<close>

definition grant_drop_access_to_qualifying_users ::
  "timestamp \<Rightarrow> drops_row list \<Rightarrow> mileage_summary_row list \<Rightarrow> drop_access_row list \<Rightarrow> uuid \<Rightarrow>
   pg_error + (int \<times> drop_access_row list)" where
  "grant_drop_access_to_qualifying_users now drops mileage_summary drop_access p_drop_id =
     (case find (\<lambda>d. drops_id d = p_drop_id) drops of
        None \<Rightarrow> Inl (PgError ''P0001'' ''Drop not found'')
      | Some v_drop \<Rightarrow>
          (case insert_drop_access now
                  (map (\<lambda>r. (p_drop_id, ms_user_id r, ''exclusive'', current_month_miles r))
                     (filter (\<lambda>r. is_true (sql_ge (current_month_miles r) (required_miles_exclusive v_drop)))
                        mileage_summary))
                  drop_access of
             Inl e \<Rightarrow> Inl e
           | Inr da1 \<Rightarrow>
               (let v_granted_count =
                      0 + int (length (filter (\<lambda>r. is_true (sql_ge (current_month_miles r)
                                 (required_miles_exclusive v_drop))) mileage_summary))
                in case insert_drop_access now
                          (map (\<lambda>r. (p_drop_id, ms_user_id r, ''premium'', current_month_miles r))
                             (filter (\<lambda>r. is_true (sql_and
                                  (sql_ge (current_month_miles r) (required_miles_premium v_drop))
                                  (sql_lt (current_month_miles r) (required_miles_exclusive v_drop))))
                                mileage_summary))
                          da1 of
                     Inl e \<Rightarrow> Inl e
                   | Inr da2 \<Rightarrow>
                       (case insert_drop_access now
                               (map (\<lambda>r. (p_drop_id, ms_user_id r, ''basic'', current_month_miles r))
                                  (filter (\<lambda>r. is_true (sql_and
                                       (sql_ge (current_month_miles r) (required_miles_basic v_drop))
                                       (sql_lt (current_month_miles r) (required_miles_premium v_drop))))
                                     mileage_summary))
                               da2 of
                          Inl e \<Rightarrow> Inl e
                        | Inr da3 \<Rightarrow>
                            (let v_granted_count =
                                   int (length (filter (\<lambda>g. da_drop_id g = p_drop_id) da3))
                             in Inr (v_granted_count, da3))))))"

text \<open>\<^verbatim>\<open>user_has_drop_access(p_user_id, p_drop_id)\<close>.\<close>

definition user_has_drop_access :: "drop_access_row list \<Rightarrow> uuid \<Rightarrow> uuid \<Rightarrow> bool" where
  "user_has_drop_access drop_access p_user_id p_drop_id =
     list_ex (\<lambda>g. da_user_id g = p_user_id \<and> da_drop_id g = p_drop_id) drop_access"

text \<open>A user's summary row with the given current-month distance, for the examples.\<close>

definition summary_with :: "uuid \<Rightarrow> rat \<Rightarrow> mileage_summary_row" where
  "summary_with u m =
     \<lparr>ms_user_id = u, current_month_miles = Some m, last_month_miles = Some 0,
      current_year_miles = Some m, total_miles = Some m, total_activities = Some 1,
      dc_activities = Some 1, last_activity_date = None,
      ms_access_tier = Some (calculate_access_tier (Some m)), last_calculated_at = None,
      ms_created_at = None, ms_updated_at = None\<rparr>"

subsection \<open>Notions for the proofs about drop access\<close>

text \<open>
  The selected rows that pass the two constraints of \<^verbatim>\<open>drop_access\<close>; a grant for a
  (drop, user) pair in a table; and the users one of the three \<^verbatim>\<open>WHERE\<close> clauses of the
  qualification selects.
\<close>

definition insertable :: "(uuid \<times> uuid \<times> string \<times> rat option) list \<Rightarrow> bool" where
  "insertable rows =
     list_all (\<lambda>row. snd (snd (snd row)) \<noteq> None \<and>
        (fst (snd (snd row)) = ''basic'' \<or> fst (snd (snd row)) = ''premium'' \<or>
         fst (snd (snd row)) = ''exclusive'')) rows"

definition has_grant :: "drop_access_row list \<Rightarrow> uuid \<Rightarrow> uuid \<Rightarrow> bool" where
  "has_grant tbl d u = list_ex (\<lambda>g. da_drop_id g = d \<and> da_user_id g = u) tbl"

definition qualifies :: "drops_row \<Rightarrow> mileage_summary_row \<Rightarrow> bool" where
  "qualifies v_drop r =
     (is_true (sql_ge (current_month_miles r) (required_miles_exclusive v_drop)) \<or>
      is_true (sql_and (sql_ge (current_month_miles r) (required_miles_premium v_drop))
                 (sql_lt (current_month_miles r) (required_miles_exclusive v_drop))) \<or>
      is_true (sql_and (sql_ge (current_month_miles r) (required_miles_basic v_drop))
                 (sql_lt (current_month_miles r) (required_miles_premium v_drop))))"

section \<open>Unit conversion\<close>

text \<open>
  \<^verbatim>\<open>meters_to_miles(meters decimal)\<close> is \<^verbatim>\<open>ROUND((meters * 0.000621371)::numeric, 2)\<close>. The
  product of two \<^verbatim>\<open>numeric\<close> values is exact, and \<^verbatim>\<open>ROUND\<close> of a \<^verbatim>\<open>numeric\<close> to \<open>s\<close>
  decimal places takes the nearest value, a tie away from zero.
\<close>

definition sql_round :: "rat \<Rightarrow> nat \<Rightarrow> rat" where
  "sql_round x s =
     (if 0 \<le> x then of_int \<lfloor>x * 10 ^ s + 1 / 2\<rfloor> / 10 ^ s
      else - (of_int \<lfloor>- x * 10 ^ s + 1 / 2\<rfloor> / 10 ^ s))"

definition meters_to_miles :: "rat \<Rightarrow> rat" where
  "meters_to_miles meters = sql_round (meters * (621371 / 1000000000)) 2"

subsection \<open>The importer's arithmetic\<close>

text \<open>
  The importer computes in JavaScript Numbers: IEEE 754 binary64. A Number is modelled by
  its value, a rational; \<open>to_double\<close> rounds a rational to the nearest Number, a tie to the
  even significand (53 bits), with an unbounded exponent. The values computed from a
  distance are far from overflow; the overflow to an infinity is applied where a numeral
  is parsed (\<open>parse_number\<close> below). The subnormal range, below \<open>2 powi (- 1022)\<close> in
  absolute value, where a Number has fewer bits, is not modelled.
\<close>

fun bit_length :: "nat \<Rightarrow> nat" where
  "bit_length n = (if n = 0 then 0 else Suc (bit_length (n div 2)))"

declare bit_length.simps [simp del]

text \<open>For \<open>x > 0\<close>, the integer \<open>k\<close> with \<open>2 powi k \<le> x < 2 powi (k + 1)\<close>.\<close>

definition floor_log2 :: "rat \<Rightarrow> int" where
  "floor_log2 x =
     (if 1 \<le> x then int (bit_length (nat \<lfloor>x\<rfloor>)) - 1
      else (let b = int (bit_length (nat \<lfloor>1 / x\<rfloor>))
            in if x = 2 powi (1 - b) then 1 - b else - b))"

definition round_half_even :: "rat \<Rightarrow> int" where
  "round_half_even x =
     (let f = \<lfloor>x\<rfloor>; d = x - of_int f
      in if d < 1 / 2 then f else if 1 / 2 < d then f + 1 else if even f then f else f + 1)"

definition to_double :: "rat \<Rightarrow> rat" where
  "to_double x =
     (if x = 0 then 0
      else (let e = floor_log2 \<bar>x\<bar> - 52
            in sgn x * (of_int (round_half_even (\<bar>x\<bar> / 2 powi e)) * 2 powi e)))"

text \<open>
  The operators \<^verbatim>\<open>*\<close> and \<^verbatim>\<open>/\<close> on Numbers round the exact result; \<^verbatim>\<open>Math.round\<close> takes
  the nearest integer, a tie upwards.
\<close>

definition js_times :: "rat \<Rightarrow> rat \<Rightarrow> rat" where
  "js_times a b = to_double (a * b)"

definition js_divide :: "rat \<Rightarrow> rat \<Rightarrow> rat" where
  "js_divide a b = to_double (a / b)"

definition math_round :: "rat \<Rightarrow> int" where
  "math_round x = \<lfloor>x + 1 / 2\<rfloor>"

text \<open>
  \<^verbatim>\<open>const distanceMiles = Math.round((activity.distance * 0.000621371) * 100) / 100\<close>, for
  the Number \<open>distance\<close>: first the integer \<^verbatim>\<open>Math.round\<close> returns, then the quotient.
\<close>

definition scaled_miles :: "rat \<Rightarrow> int" where
  "scaled_miles distance =
     math_round (js_times (js_times distance (to_double (621371 / 1000000000))) 100)"

definition distanceMiles :: "rat \<Rightarrow> rat" where
  "distanceMiles distance = js_divide (of_int (scaled_miles distance)) 100"

subsection \<open>Numbers in a request body\<close>

text \<open>
  When a Number goes into the body of a request, \<^verbatim>\<open>JSON.stringify\<close> prints the decimal
  numeral with the fewest significant digits that reads back as the same Number and,
  among those, the one closest to the Number (a tie to the even last digit).
  \<open>shortest_decimal x\<close> is the value of the numeral printed for the Number \<open>x\<close>. For
  \<open>x > 0\<close>, \<open>shortest_from\<close> goes through the positions \<open>j\<close> of the last digit from the
  highest down and tries, at each, the two multiples of \<open>10 powi j\<close> around \<open>x\<close>. The search
  starts at a position where \<open>10 powi j\<close> exceeds \<open>x\<close>, so that no higher position can
  succeed, and ends at the latest where \<open>x\<close>, a multiple of a power of two, is itself a
  multiple of \<open>10 powi j\<close> (lemma \<open>shortest_decimal_reads_back\<close>: the numeral found reads
  back as \<open>x\<close>).
\<close>

fun shortest_from :: "rat \<Rightarrow> int \<Rightarrow> nat \<Rightarrow> rat" where
  "shortest_from x j 0 = x"
| "shortest_from x j (Suc fuel) =
     (let s = \<lfloor>x / 10 powi j\<rfloor>;
          lo = of_int s * 10 powi j;
          hi = of_int (s + 1) * 10 powi j
      in if to_double lo = x \<and> to_double hi = x
         then (if x - lo < hi - x then lo else if hi - x < x - lo then hi
               else if even s then lo else hi)
         else if to_double lo = x then lo
         else if to_double hi = x then hi
         else shortest_from x (j - 1) fuel)"

definition shortest_decimal :: "rat \<Rightarrow> rat" where
  "shortest_decimal x =
     (if x = 0 then 0
      else (let top = max 0 (floor_log2 \<bar>x\<bar> + 1);
                bottom = min 0 (floor_log2 \<bar>x\<bar> - 52)
            in sgn x * shortest_from \<bar>x\<bar> top (Suc (nat (top - bottom)))))"

text \<open>
  The value the column \<^verbatim>\<open>distance_miles\<close> (a \<^verbatim>\<open>decimal\<close>, which reads a numeral exactly)
  receives for a distance written \<open>distance\<close> in the provider's response: the response is
  parsed into Numbers, and the request body of the insert carries the numeral printed
  for the Number \<open>distanceMiles\<close>.
\<close>

definition distance_miles_sent :: "rat \<Rightarrow> rat" where
  "distance_miles_sent distance = shortest_decimal (distanceMiles (to_double distance))"

section \<open>Activity import\<close>

text \<open>
  The sync function: an HTTP handler that reads the user's credentials, refreshes them
  when they have expired, fetches the activities after the last sync, stores the
  running ones and asks the database to recalculate the mileage summary. The handler
  runs against the database (the tables \<^verbatim>\<open>users\<close>, \<^verbatim>\<open>activities\<close> and \<^verbatim>\<open>mileage_summary\<close>) and
  an environment: its configuration, the provider's two endpoints and the clocks it
  reads.
\<close>

record database =
  db_users :: "uuid \<Rightarrow> users_row option"
  db_activities :: "activities_row list"
  db_mileage_summary :: "mileage_summary_row list"

text \<open>
  An activity of the provider's response (\<^verbatim>\<open>interface StravaActivity\<close>), with the fields
  the handler computes with or the table constrains. A number is the numeral written
  in the response (the identifier and the two durations are integers); the handler
  holds, for each numeral, the Number \<^verbatim>\<open>JSON.parse\<close> reads, \<open>parse_number\<close> below.
\<close>

record StravaActivity =
  sa_id :: int
  sa_type :: string
  sa_sport_type :: string
  sa_start_date :: timestamp
  sa_distance :: rat
  sa_moving_time :: int
  sa_elapsed_time :: int
  sa_start_latlng :: "(rat \<times> rat) option"

text \<open>
  The answer of the token endpoint (\<^verbatim>\<open>interface RefreshTokenResponse\<close>); \<^verbatim>\<open>expires_at\<close> is a
  whole number of seconds. (The product \<^verbatim>\<open>refreshData.expires_at * 1000\<close> of Numbers is the
  exact product whenever it is a time value, a whole number of at most 8.64e15
  milliseconds in absolute value, and lies outside that range otherwise.)
\<close>

record RefreshTokenResponse =
  access_token :: string
  expires_at :: int
  refresh_token :: string

text \<open>
  What a \<^verbatim>\<open>fetch\<close> and the reading of its body come to: an exception with its message
  (the network failed, the body is not the expected JSON), a response that is not
  \<^verbatim>\<open>ok\<close> with its text, or the parsed body of an \<^verbatim>\<open>ok\<close> response.
\<close>

datatype 'a fetch_result = Fetch_threw string | Fetch_not_ok string | Fetch_ok 'a

record environment =
  STRAVA_CLIENT_ID :: "string option"
  STRAVA_CLIENT_SECRET :: "string option"
  token_endpoint :: "string \<Rightarrow> string \<Rightarrow> string \<Rightarrow> RefreshTokenResponse fetch_result"
  activities_endpoint :: "string \<Rightarrow> int \<Rightarrow> StravaActivity list fetch_result"
  clock_token_check :: int
  clock_horizon :: int
  clock_synced :: int
  clock_database :: timestamp







text \<open>
  A \<^verbatim>\<open>timestamptz\<close> column reads the text \<^verbatim>\<open>toISOString\<close> prints when the year is written
  with four digits and is not 0000: the time values from 0001-01-01T00:00:00.000Z to
  9999-12-31T23:59:59.999Z. A year beyond is printed with a sign and six digits, which
  the input of the column refuses.
\<close>

definition timestamptz_reads :: "int \<Rightarrow> bool" where
  "timestamptz_reads ms = (- 62135596800000 \<le> ms \<and> ms \<le> 253402300799999)"

text \<open>
  The two updates of \<^verbatim>\<open>users\<close>. The handler does not inspect their results, so only
  their effect is modelled: an update whose timestamp the column refuses fails and
  leaves the row as it was.
\<close>

definition update_tokens :: "uuid \<Rightarrow> RefreshTokenResponse \<Rightarrow> database \<Rightarrow> database" where
  "update_tokens userId refreshData db =
     (case db_users db userId of
        None \<Rightarrow> db
      | Some r \<Rightarrow>
          if \<not> timestamptz_reads (expires_at refreshData * 1000) then db
          else db\<lparr>db_users := (db_users db)(userId \<mapsto>
                 r\<lparr>strava_access_token := Some (access_token refreshData),
                   strava_refresh_token := Some (refresh_token refreshData),
                   token_expires_at := Some (expires_at refreshData * 1000)\<rparr>)\<rparr>)"

definition set_last_synced :: "uuid \<Rightarrow> int \<Rightarrow> database \<Rightarrow> database" where
  "set_last_synced userId t db =
     (case db_users db userId of
        None \<Rightarrow> db
      | Some r \<Rightarrow>
          if \<not> timestamptz_reads t then db
          else db\<lparr>db_users := (db_users db)(userId \<mapsto> r\<lparr>last_synced_at := Some t\<rparr>)\<rparr>)"


text \<open>
  \<^verbatim>\<open>JSON.parse\<close> reads a numeral as the nearest Number; when that is \<open>2\<^sup>1\<^sup>0\<^sup>2\<^sup>4\<close> or more in
  absolute value, the Number read is an infinity (\<open>None\<close>).
\<close>

definition parse_number :: "rat \<Rightarrow> rat option" where
  "parse_number written =
     (let v = to_double written in if 2 ^ 1024 \<le> \<bar>v\<bar> then None else Some v)"








text \<open>
  The handler from the fetch of the activities on, given the access token to use. The
  error of the recalculation is logged and the handler goes on.
\<close>

definition rpc_recalculate_user_mileage :: "environment \<Rightarrow> uuid \<Rightarrow> database \<Rightarrow> database" where
  "rpc_recalculate_user_mileage env userId db =
     (case recalculate_user_mileage (clock_database env) (db_users db) (db_activities db)
             (db_mileage_summary db) userId of
        Inl recalcError \<Rightarrow> db
      | Inr tbl \<Rightarrow> db\<lparr>db_mileage_summary := tbl\<rparr>)"



subsection \<open>Notions for the proofs about the import\<close>

text \<open>
  The external id the database reads for an activity; an activity whose request body
  the columns of \<^verbatim>\<open>activities\<close> read and accept, its three integers and its \<^verbatim>\<open>NOT NULL\<close>
  numbers (the user id of the body plays no part); and the external activity ids a
  database holds.
\<close>

definition sent_id :: "StravaActivity \<Rightarrow> int" where
  "sent_id a = \<lfloor>shortest_decimal (to_double (of_int (sa_id a)))\<rfloor>"



text \<open>The row an accepted insert adds to \<^verbatim>\<open>activities\<close> for an activity.\<close>

definition stored_row :: "uuid \<Rightarrow> StravaActivity \<Rightarrow> activities_row" where
  "stored_row userId a =
     set_dc_metro_area
       \<lparr>a_user_id = userId,
        strava_activity_id = sent_id a,
        activity_type = (if sa_type a \<noteq> [] then sa_type a else sa_sport_type a),
        activity_date = sa_start_date a,
        distance_meters = shortest_decimal (to_double (sa_distance a)),
        distance_miles = distance_miles_sent (sa_distance a),
        moving_time_seconds =
          map_option (\<lambda>v. \<lfloor>shortest_decimal v\<rfloor>) (parse_number (of_int (sa_moving_time a))),
        elapsed_time_seconds =
          map_option (\<lambda>v. \<lfloor>shortest_decimal v\<rfloor>) (parse_number (of_int (sa_elapsed_time a))),
        start_latitude =
          Option.bind (sa_start_latlng a) (\<lambda>p. map_option shortest_decimal (parse_number (fst p))),
        start_longitude =
          Option.bind (sa_start_latlng a) (\<lambda>p. map_option shortest_decimal (parse_number (snd p))),
        is_dc_metro_area = Some False\<rparr>"

subsection \<open>A sample import\<close>








section \<open>Theorems: access tier\<close>

text \<open>
  C3. The tier computed by \<open>calculate_access_tier\<close> for a distance \<open>m\<close> is the one and
  only tier the reference step function relates to \<open>m\<close> (so the derivation is total and
  deterministic), and the six boundary distances 49.99, 50.00, 99.99, 100.00, 149.99 and
  150.00 give none, basic, basic, premium, premium and exclusive.
\<close>

theorem calculate_access_tier_step:
  "(tier_reference m t \<longleftrightarrow> t = calculate_access_tier (Some m)) \<and>
   calculate_access_tier (Some (4999 / 100)) = ''none'' \<and>
   calculate_access_tier (Some 50) = ''basic'' \<and>
   calculate_access_tier (Some (9999 / 100)) = ''basic'' \<and>
   calculate_access_tier (Some 100) = ''premium'' \<and>
   calculate_access_tier (Some (14999 / 100)) = ''premium'' \<and>
   calculate_access_tier (Some 150) = ''exclusive''"
proof -
  have ref: "tier_reference m t \<longleftrightarrow> t = calculate_access_tier (Some m)"
    unfolding tier_reference_def calculate_access_tier_def is_true_def sql_ge_def
    by auto
  have pts: "calculate_access_tier (Some (4999 / 100)) = ''none''"
    "calculate_access_tier (Some 50) = ''basic''"
    "calculate_access_tier (Some (9999 / 100)) = ''basic''"
    "calculate_access_tier (Some 100) = ''premium''"
    "calculate_access_tier (Some (14999 / 100)) = ''premium''"
    "calculate_access_tier (Some 150) = ''exclusive''"
    unfolding calculate_access_tier_def is_true_def sql_ge_def by simp_all
  from ref pts show ?thesis by blast
qed

section \<open>Theorems: mileage summary\<close>

lemma fold_assign_keeps_access_tier:
  "\<not> list_ex writes_access_tier assigns \<Longrightarrow>
   ms_access_tier (fold (assign_column old) assigns r) = ms_access_tier r"
proof (induction assigns arbitrary: r)
  case Nil
  then show ?case by simp
next
  case (Cons a assigns)
  then show ?case by (cases a) simp_all
qed

lemma fold_assign_keeps_current_month_miles:
  "\<not> list_ex writes_current_month_miles assigns \<Longrightarrow>
   current_month_miles (fold (assign_column old) assigns r) = current_month_miles r"
proof (induction assigns arbitrary: r)
  case Nil
  then show ?case by simp
next
  case (Cons a assigns)
  then show ?case by (cases a) simp_all
qed

lemma update_access_tier_consistent: "tier_consistent (update_access_tier now r)"
  by (simp add: tier_consistent_def update_access_tier_def)

lemma update_access_tier_current_month_miles:
  "current_month_miles (update_access_tier now r) = current_month_miles r"
  by (simp add: update_access_tier_def)

lemma before_update_row_consistent:
  assumes "list_ex writes_current_month_miles assigns \<or> \<not> list_ex writes_access_tier assigns"
    and "tier_consistent old"
  shows "tier_consistent (before_update_row now assigns old)"
proof (cases "list_ex writes_current_month_miles assigns")
  case True
  then show ?thesis
    by (simp add: before_update_row_def update_access_tier_consistent)
next
  case False
  with assms(1) have "\<not> list_ex writes_access_tier assigns" by blast
  with False assms(2) show ?thesis
    by (simp add: before_update_row_def set_columns_def tier_consistent_def
        fold_assign_keeps_access_tier fold_assign_keeps_current_month_miles)
qed

lemma ms_update_result:
  "ms_update now assigns cond tbl = Inr tbl' \<Longrightarrow>
   tbl' = map (\<lambda>r. if cond r then before_update_row now assigns r else r) tbl"
  by (simp add: ms_update_def split: if_splits)

lemma ms_insert_result:
  "ms_insert now users NEW tbl = Inr tbl' \<Longrightarrow> tbl' = tbl @ [update_access_tier now NEW]"
  by (simp add: ms_insert_def Let_def split: if_splits)

lemma ms_insert_consistent:
  "ms_insert now users NEW tbl = Inr tbl' \<Longrightarrow> list_all tier_consistent tbl \<Longrightarrow>
   list_all tier_consistent tbl'"
  by (drule ms_insert_result) (simp add: update_access_tier_consistent)

lemma ms_update_consistent:
  assumes "ms_update now assigns cond tbl = Inr tbl'"
    and "list_ex writes_current_month_miles assigns \<or> \<not> list_ex writes_access_tier assigns"
    and "list_all tier_consistent tbl"
  shows "list_all tier_consistent tbl'"
proof -
  have "tbl' = map (\<lambda>r. if cond r then before_update_row now assigns r else r) tbl"
    using assms(1) by (rule ms_update_result)
  moreover have "\<And>r. tier_consistent r \<Longrightarrow> tier_consistent (before_update_row now assigns r)"
    using assms(2) by (rule before_update_row_consistent)
  ultimately show ?thesis
    using assms(3) by (auto simp: list_all_iff)
qed

lemma recalculate_consistent:
  assumes "recalculate_user_mileage now users activities tbl u = Inr tbl'"
    and "list_all tier_consistent tbl"
  shows "list_all tier_consistent tbl'"
proof (cases "list_ex (\<lambda>r. ms_user_id r = u) tbl")
  case True
  with assms(1) obtain assigns where
    upd: "ms_update now assigns (\<lambda>r. ms_user_id r = u) tbl = Inr tbl'"
    and w: "list_ex writes_current_month_miles assigns"
    by (simp add: recalculate_user_mileage_def Let_def)
  from upd w assms(2) show ?thesis
    by (blast intro: ms_update_consistent)
next
  case False
  with assms(1) obtain NEW where "ms_insert now users NEW tbl = Inr tbl'"
    by (simp add: recalculate_user_mileage_def Let_def)
  with assms(2) show ?thesis
    by (blast intro: ms_insert_consistent)
qed

lemma reachable_consistent: "ms_reachable tbl \<Longrightarrow> list_all tier_consistent tbl"
proof (induction rule: ms_reachable.induct)
  case ms_empty
  show ?case by simp
next
  case (ms_inserted tbl now users NEW tbl')
  then show ?case by (blast intro: ms_insert_consistent)
next
  case (ms_updated tbl assigns now cond tbl')
  then show ?case by (blast intro: ms_update_consistent)
next
  case (ms_recalculated tbl now users activities p_user_id tbl')
  then show ?case by (blast intro: recalculate_consistent)
qed

text \<open>
  C4. An insert into \<open>mileage_summary\<close> stores the tier computed from the stored
  current-month distance; so does every row rewritten by an update that assigns
  \<open>current_month_miles\<close>; and every row of every reachable table carries the tier of
  its stored distance.
\<close>

theorem access_tier_never_stale:
  "(ms_insert now users NEW tbl = Inr tbl1 \<longrightarrow>
      (\<exists>r. tbl1 = tbl @ [r] \<and> current_month_miles r = current_month_miles NEW \<and>
           tier_consistent r)) \<and>
   (ms_update now assigns cond tbl = Inr tbl2 \<longrightarrow> list_ex writes_current_month_miles assigns \<longrightarrow>
      length tbl2 = length tbl \<and>
      (\<forall>i < length tbl. cond (tbl ! i) \<longrightarrow>
         current_month_miles (tbl2 ! i) = current_month_miles (set_columns assigns (tbl ! i)) \<and>
         tier_consistent (tbl2 ! i))) \<and>
   (ms_reachable tbl \<longrightarrow> list_all tier_consistent tbl)"
proof (intro conjI impI)
  assume "ms_insert now users NEW tbl = Inr tbl1"
  then have "tbl1 = tbl @ [update_access_tier now NEW]"
    by (rule ms_insert_result)
  then show "\<exists>r. tbl1 = tbl @ [r] \<and> current_month_miles r = current_month_miles NEW \<and>
      tier_consistent r"
    by (simp add: update_access_tier_consistent update_access_tier_current_month_miles)
next
  assume upd: "ms_update now assigns cond tbl = Inr tbl2"
  then show "length tbl2 = length tbl"
    by (auto dest: ms_update_result)
next
  assume upd: "ms_update now assigns cond tbl = Inr tbl2"
    and w: "list_ex writes_current_month_miles assigns"
  show "\<forall>i < length tbl. cond (tbl ! i) \<longrightarrow>
         current_month_miles (tbl2 ! i) = current_month_miles (set_columns assigns (tbl ! i)) \<and>
         tier_consistent (tbl2 ! i)"
  proof (intro allI impI)
    fix i
    assume i: "i < length tbl" and c: "cond (tbl ! i)"
    from upd have "tbl2 = map (\<lambda>r. if cond r then before_update_row now assigns r else r) tbl"
      by (rule ms_update_result)
    with i c have "tbl2 ! i = update_access_tier now (set_columns assigns (tbl ! i))"
      using w by (simp add: before_update_row_def)
    then show "current_month_miles (tbl2 ! i) = current_month_miles (set_columns assigns (tbl ! i)) \<and>
         tier_consistent (tbl2 ! i)"
      by (simp add: update_access_tier_consistent update_access_tier_current_month_miles)
  qed
next
  assume "ms_reachable tbl"
  then show "list_all tier_consistent tbl"
    by (rule reachable_consistent)
qed

theorem access_tier_never_stale_witness:
  "ms_insert \<lparr>ts_year = 2026, ts_month = 1, ts_day = 8, ts_usec = 0\<rparr> sample_users
     \<lparr>ms_user_id = ''u1'', current_month_miles = Some 120, last_month_miles = Some 0,
      current_year_miles = Some 120, total_miles = Some 120, total_activities = Some 3,
      dc_activities = Some 3, last_activity_date = None, ms_access_tier = Some ''none'',
      last_calculated_at = None, ms_created_at = None, ms_updated_at = None\<rparr> []
   = Inr [\<lparr>ms_user_id = ''u1'', current_month_miles = Some 120, last_month_miles = Some 0,
      current_year_miles = Some 120, total_miles = Some 120, total_activities = Some 3,
      dc_activities = Some 3, last_activity_date = None, ms_access_tier = Some ''premium'',
      last_calculated_at = None, ms_created_at = None,
      ms_updated_at = Some \<lparr>ts_year = 2026, ts_month = 1, ts_day = 8, ts_usec = 0\<rparr>\<rparr>] \<and>
   ms_update \<lparr>ts_year = 2026, ts_month = 2, ts_day = 1, ts_usec = 0\<rparr>
     [Set_access_tier (\<lambda>r. Some ''exclusive''), Set_current_month_miles (\<lambda>r. Some 30)]
     (\<lambda>r. True)
     [\<lparr>ms_user_id = ''u1'', current_month_miles = Some 120, last_month_miles = Some 0,
      current_year_miles = Some 120, total_miles = Some 120, total_activities = Some 3,
      dc_activities = Some 3, last_activity_date = None, ms_access_tier = Some ''premium'',
      last_calculated_at = None, ms_created_at = None,
      ms_updated_at = Some \<lparr>ts_year = 2026, ts_month = 1, ts_day = 8, ts_usec = 0\<rparr>\<rparr>]
   = Inr [\<lparr>ms_user_id = ''u1'', current_month_miles = Some 30, last_month_miles = Some 0,
      current_year_miles = Some 120, total_miles = Some 120, total_activities = Some 3,
      dc_activities = Some 3, last_activity_date = None, ms_access_tier = Some ''none'',
      last_calculated_at = None, ms_created_at = None,
      ms_updated_at = Some \<lparr>ts_year = 2026, ts_month = 2, ts_day = 1, ts_usec = 0\<rparr>\<rparr>] \<and>
   ms_reachable [\<lparr>ms_user_id = ''u1'', current_month_miles = Some 30, last_month_miles = Some 0,
      current_year_miles = Some 120, total_miles = Some 120, total_activities = Some 3,
      dc_activities = Some 3, last_activity_date = None, ms_access_tier = Some ''none'',
      last_calculated_at = None, ms_created_at = None,
      ms_updated_at = Some \<lparr>ts_year = 2026, ts_month = 2, ts_day = 1, ts_usec = 0\<rparr>\<rparr>] \<and>
   list_all tier_consistent [\<lparr>ms_user_id = ''u1'', current_month_miles = Some 30, last_month_miles = Some 0,
      current_year_miles = Some 120, total_miles = Some 120, total_activities = Some 3,
      dc_activities = Some 3, last_activity_date = None, ms_access_tier = Some ''none'',
      last_calculated_at = None, ms_created_at = None,
      ms_updated_at = Some \<lparr>ts_year = 2026, ts_month = 2, ts_day = 1, ts_usec = 0\<rparr>\<rparr>]"
  (is "?ins \<and> ?upd \<and> ?reach \<and> ?cons")
proof -
  have ins: ?ins
    by (simp add: ms_insert_def sample_users_def update_access_tier_def check_access_tier_def
        calculate_access_tier_def is_true_def sql_ge_def)
  have upd: ?upd
    by (simp add: ms_update_def before_update_row_def set_columns_def update_access_tier_def
        check_access_tier_def calculate_access_tier_def is_true_def sql_ge_def)
  have reach: ?reach
    by (rule ms_updated [OF ms_inserted [OF ms_empty ins] _ upd]) simp
  from access_tier_never_stale [THEN conjunct2, THEN conjunct2, THEN mp, OF reach]
  have ?cons .
  with ins upd reach show ?thesis by blast
qed

subsection \<open>Recalculation\<close>

lemma coalesce_sql_sum:
  "coalesce (sql_sum (map (\<lambda>a. if P a then f a else 0) xs)) 0 = sum_list (map f (filter P xs))"
  by (cases xs) (simp_all add: coalesce_def sql_sum_def sum_list_map_filter')

lemma date_trunc_month_start: "date_trunc_month now = start_of_current_month now"
  by (simp add: date_trunc_month_def start_of_current_month_def first_instant_of_month_def)

lemma date_trunc_year_start: "date_trunc_year now = start_of_current_year now"
  by (simp add: date_trunc_year_def start_of_current_year_def first_instant_of_month_def)

lemma date_trunc_previous_month:
  "date_trunc_month (minus_one_month now) = start_of_previous_month now"
  by (simp add: date_trunc_month_def minus_one_month_def start_of_previous_month_def
      first_instant_of_month_def Let_def)

lemma mileage_select_fields:
  "ms_user_id (mileage_select now activities u) = u"
  "current_month_miles (mileage_select now activities u) =
     Some (in_region_miles (\<lambda>d. ts_le (start_of_current_month now) d) u activities)"
  "last_month_miles (mileage_select now activities u) =
     Some (in_region_miles (\<lambda>d. ts_le (start_of_previous_month now) d \<and>
        ts_less d (start_of_current_month now)) u activities)"
  "current_year_miles (mileage_select now activities u) =
     Some (in_region_miles (\<lambda>d. ts_le (start_of_current_year now) d) u activities)"
  "total_miles (mileage_select now activities u) = Some (in_region_miles (\<lambda>d. True) u activities)"
  "total_activities (mileage_select now activities u) =
     Some (int (length (filter (\<lambda>a. a_user_id a = u) activities)))"
  "dc_activities (mileage_select now activities u) =
     Some (int (length (filter (\<lambda>a. a_user_id a = u \<and> is_dc_metro_area a = Some True) activities)))"
  "last_activity_date (mileage_select now activities u) =
     ts_max (map activity_date (filter (\<lambda>a. a_user_id a = u) activities))"
  "last_calculated_at (mileage_select now activities u) = Some now"
  unfolding mileage_select_def Let_def date_trunc_previous_month
  unfolding date_trunc_month_start date_trunc_year_start
  by (simp_all add: coalesce_sql_sum in_region_miles_def conj_ac cong: conj_cong)

lemma check_update_access_tier: "check_access_tier (update_access_tier now r)"
  by (simp add: check_access_tier_def update_access_tier_def calculate_access_tier_def)

lemma recalculate_conflict:
  assumes "list_ex (\<lambda>r. ms_user_id r = u) tbl"
  shows "recalculate_user_mileage now users activities tbl u =
     Inr (map (\<lambda>r. if ms_user_id r = u
                    then overwritten now (mileage_select now activities u) r else r) tbl)"
proof -
  let ?sel = "mileage_select now activities u"
  let ?assigns = "[Set_current_month_miles (\<lambda>r. current_month_miles (update_access_tier now ?sel)),
                 Set_last_month_miles (\<lambda>r. last_month_miles (update_access_tier now ?sel)),
                 Set_current_year_miles (\<lambda>r. current_year_miles (update_access_tier now ?sel)),
                 Set_total_miles (\<lambda>r. total_miles (update_access_tier now ?sel)),
                 Set_total_activities (\<lambda>r. total_activities (update_access_tier now ?sel)),
                 Set_dc_activities (\<lambda>r. dc_activities (update_access_tier now ?sel)),
                 Set_last_activity_date (\<lambda>r. last_activity_date (update_access_tier now ?sel)),
                 Set_last_calculated_at (\<lambda>r. Some now)]"
  have row: "before_update_row now ?assigns r = overwritten now ?sel r" for r
    by (simp add: before_update_row_def set_columns_def update_access_tier_def overwritten_def)
  have chk: "check_access_tier (before_update_row now ?assigns r)" for r
    by (simp add: before_update_row_def check_update_access_tier)
  have "recalculate_user_mileage now users activities tbl u =
      ms_update now ?assigns (\<lambda>r. ms_user_id r = u) tbl"
    using assms by (simp add: recalculate_user_mileage_def Let_def)
  also have "\<dots> = Inr (map (\<lambda>r. if ms_user_id r = u then before_update_row now ?assigns r else r) tbl)"
    unfolding ms_update_def using chk by (simp add: list_ex_iff)
  finally show ?thesis
    by (simp only: row)
qed

lemma recalculate_fresh:
  assumes "\<not> list_ex (\<lambda>r. ms_user_id r = u) tbl"
  shows "recalculate_user_mileage now users activities tbl u =
     (if users u = None then Inl (PgError ''23503'' ''mileage_summary_user_id_fkey'')
      else Inr (tbl @ [update_access_tier now (mileage_select now activities u)]))"
proof -
  have "ms_user_id (update_access_tier now (mileage_select now activities u)) = u"
    by (simp add: update_access_tier_def mileage_select_fields)
  with assms show ?thesis
    by (simp add: recalculate_user_mileage_def Let_def ms_insert_def check_update_access_tier)
qed

lemma recalculate_Inr_fresh:
  assumes "recalculate_user_mileage now users activities tbl u = Inr tbl1"
    and "\<not> list_ex (\<lambda>r. ms_user_id r = u) tbl"
  shows "tbl1 = tbl @ [update_access_tier now (mileage_select now activities u)]"
  using assms(1) unfolding recalculate_fresh [OF assms(2)]
  by (simp split: if_splits)

lemma overwritten_user_id: "ms_user_id (overwritten now sel r) = ms_user_id r"
  by (simp add: overwritten_def)

lemma filter_single:
  "distinct (map k xs) \<Longrightarrow> x \<in> set xs \<Longrightarrow> filter (\<lambda>y. k y = k x) xs = [x]"
proof (induction xs)
  case Nil
  then show ?case by simp
next
  case (Cons a xs)
  show ?case
  proof (cases "a = x")
    case True
    have "filter (\<lambda>y. k y = k x) xs = []"
      using Cons.prems(1) True by (force simp: filter_empty_conv image_iff)
    with True show ?thesis by simp
  next
    case False
    with Cons.prems have "x \<in> set xs" and "k a \<noteq> k x" and "distinct (map k xs)"
      by auto
    with Cons.IH show ?thesis by simp
  qed
qed

text \<open>
  C7. With one row per user at most before the call, and for a user that \<^verbatim>\<open>users\<close> holds
  or that has a summary row, \<open>recalculate_user_mileage\<close> returns, leaves the rows of other
  users alone and leaves exactly one row for the user, whatever the row held before:
  its current-month distance is the sum of the in-region miles dated at or after the
  first instant of the current calendar month, its prior-month distance is that sum
  over the dates from the first instant of the previous calendar month up to, not
  including, the first instant of the current one, its current-year distance is that
  sum from the first instant of the current year, its all-time distance is the sum of
  all in-region miles, and its two counts are over all the user's activities and all
  the user's in-region activities, whatever their dates. For an id that \<^verbatim>\<open>users\<close> does not
  hold and that has no summary row, the call raises the foreign-key violation 23503.
\<close>

theorem recalculate_overwrites_from_scan:
  assumes "distinct (map ms_user_id tbl)"
  shows "(users u \<noteq> None \<or> list_ex (\<lambda>x. ms_user_id x = u) tbl \<longrightarrow>
     (\<exists>tbl' r. recalculate_user_mileage now users activities tbl u = Inr tbl' \<and>
     distinct (map ms_user_id tbl') \<and>
     filter (\<lambda>x. ms_user_id x = u) tbl' = [r] \<and>
     filter (\<lambda>x. ms_user_id x \<noteq> u) tbl' = filter (\<lambda>x. ms_user_id x \<noteq> u) tbl \<and>
     current_month_miles r =
       Some (in_region_miles (\<lambda>d. ts_le (start_of_current_month now) d) u activities) \<and>
     last_month_miles r =
       Some (in_region_miles (\<lambda>d. ts_le (start_of_previous_month now) d \<and>
          ts_less d (start_of_current_month now)) u activities) \<and>
     current_year_miles r =
       Some (in_region_miles (\<lambda>d. ts_le (start_of_current_year now) d) u activities) \<and>
     total_miles r = Some (in_region_miles (\<lambda>d. True) u activities) \<and>
     total_activities r = Some (int (length (filter (\<lambda>a. a_user_id a = u) activities))) \<and>
     dc_activities r =
       Some (int (length (filter (\<lambda>a. a_user_id a = u \<and> is_dc_metro_area a = Some True) activities))) \<and>
     last_activity_date r = ts_max (map activity_date (filter (\<lambda>a. a_user_id a = u) activities)) \<and>
     last_calculated_at r = Some now \<and>
     tier_consistent r)) \<and>
   (users u = None \<longrightarrow> \<not> list_ex (\<lambda>x. ms_user_id x = u) tbl \<longrightarrow>
      recalculate_user_mileage now users activities tbl u =
        Inl (PgError ''23503'' ''mileage_summary_user_id_fkey''))"
proof (intro conjI impI)
  assume known: "users u \<noteq> None \<or> list_ex (\<lambda>x. ms_user_id x = u) tbl"
  let ?goal = "\<exists>tbl' r. recalculate_user_mileage now users activities tbl u = Inr tbl' \<and>
     distinct (map ms_user_id tbl') \<and>
     filter (\<lambda>x. ms_user_id x = u) tbl' = [r] \<and>
     filter (\<lambda>x. ms_user_id x \<noteq> u) tbl' = filter (\<lambda>x. ms_user_id x \<noteq> u) tbl \<and>
     current_month_miles r =
       Some (in_region_miles (\<lambda>d. ts_le (start_of_current_month now) d) u activities) \<and>
     last_month_miles r =
       Some (in_region_miles (\<lambda>d. ts_le (start_of_previous_month now) d \<and>
          ts_less d (start_of_current_month now)) u activities) \<and>
     current_year_miles r =
       Some (in_region_miles (\<lambda>d. ts_le (start_of_current_year now) d) u activities) \<and>
     total_miles r = Some (in_region_miles (\<lambda>d. True) u activities) \<and>
     total_activities r = Some (int (length (filter (\<lambda>a. a_user_id a = u) activities))) \<and>
     dc_activities r =
       Some (int (length (filter (\<lambda>a. a_user_id a = u \<and> is_dc_metro_area a = Some True) activities))) \<and>
     last_activity_date r = ts_max (map activity_date (filter (\<lambda>a. a_user_id a = u) activities)) \<and>
     last_calculated_at r = Some now \<and>
     tier_consistent r"
  show ?goal
  proof (cases "list_ex (\<lambda>r. ms_user_id r = u) tbl")
    case False
    with known have user: "users u \<noteq> None" by blast
    let ?r = "update_access_tier now (mileage_select now activities u)"
    have res: "recalculate_user_mileage now users activities tbl u = Inr (tbl @ [?r])"
      using user by (simp add: recalculate_fresh [OF False])
    have uid: "ms_user_id ?r = u"
      by (simp add: update_access_tier_def mileage_select_fields)
    have none: "\<forall>x \<in> set tbl. ms_user_id x \<noteq> u"
      using False by (simp add: list_ex_iff)
    have "distinct (map ms_user_id (tbl @ [?r]))"
      using assms none uid by auto
    moreover have "filter (\<lambda>x. ms_user_id x = u) (tbl @ [?r]) = [?r]"
      using none uid by (simp add: filter_empty_conv)
    moreover have "filter (\<lambda>x. ms_user_id x \<noteq> u) (tbl @ [?r]) = filter (\<lambda>x. ms_user_id x \<noteq> u) tbl"
      using uid by simp
    moreover have "tier_consistent ?r"
      by (rule update_access_tier_consistent)
    ultimately show ?thesis
      using res by (simp add: update_access_tier_def mileage_select_fields)
  next
    case True
    let ?sel = "mileage_select now activities u"
    let ?f = "\<lambda>r. if ms_user_id r = u then overwritten now ?sel r else r"
    have res: "recalculate_user_mileage now users activities tbl u = Inr (map ?f tbl)"
      using True by (rule recalculate_conflict)
    from True obtain x where x: "x \<in> set tbl" "ms_user_id x = u"
      by (auto simp: list_ex_iff)
    have single: "filter (\<lambda>y. ms_user_id y = u) tbl = [x]"
      using filter_single [OF assms x(1)] x(2) by simp
    have keys: "map ms_user_id (map ?f tbl) = map ms_user_id tbl"
      by (simp add: overwritten_user_id)
    have "distinct (map ms_user_id (map ?f tbl))"
      using assms by (simp only: keys)
    moreover have "filter (\<lambda>y. ms_user_id y = u) (map ?f tbl) = [overwritten now ?sel x]"
    proof -
      have "filter (\<lambda>y. ms_user_id y = u) (map ?f tbl) = map ?f (filter (\<lambda>y. ms_user_id y = u) tbl)"
        by (simp add: filter_map comp_def overwritten_user_id cong: filter_cong)
      then show ?thesis using single x(2) by simp
    qed
    moreover have "filter (\<lambda>y. ms_user_id y \<noteq> u) (map ?f tbl) = filter (\<lambda>y. ms_user_id y \<noteq> u) tbl"
      by (induction tbl) (simp_all add: overwritten_user_id)
    moreover have "tier_consistent (overwritten now ?sel x)"
      by (simp add: tier_consistent_def overwritten_def)
    ultimately show ?thesis
      using res by (simp add: overwritten_def mileage_select_fields)
  qed
next
  assume "users u = None" and "\<not> list_ex (\<lambda>x. ms_user_id x = u) tbl"
  then show "recalculate_user_mileage now users activities tbl u =
        Inl (PgError ''23503'' ''mileage_summary_user_id_fkey'')"
    by (simp add: recalculate_fresh)
qed

lemma overwritten_fixed_after_recalculate:
  assumes "recalculate_user_mileage now users activities tbl u = Inr tbl1"
    and "r \<in> set tbl1" and "ms_user_id r = u"
  shows "overwritten now (mileage_select now activities u) r = r"
proof (cases "list_ex (\<lambda>r. ms_user_id r = u) tbl")
  case True
  with assms(1) have "tbl1 = map (\<lambda>r. if ms_user_id r = u
      then overwritten now (mileage_select now activities u) r else r) tbl"
    by (simp add: recalculate_conflict)
  with assms(2,3) obtain r0 where "r = overwritten now (mileage_select now activities u) r0"
    by (auto simp: overwritten_user_id split: if_splits)
  then show ?thesis by (simp add: overwritten_def)
next
  case False
  with assms(1) have "tbl1 = tbl @ [update_access_tier now (mileage_select now activities u)]"
    by (rule recalculate_Inr_fresh)
  moreover have "\<forall>x \<in> set tbl. ms_user_id x \<noteq> u"
    using False by (simp add: list_ex_iff)
  ultimately have "r = update_access_tier now (mileage_select now activities u)"
    using assms(2,3) by auto
  then show ?thesis
    by (simp add: overwritten_def update_access_tier_def mileage_select_fields)
qed

lemma row_after_recalculate:
  assumes "recalculate_user_mileage now users activities tbl u = Inr tbl1"
  shows "list_ex (\<lambda>r. ms_user_id r = u) tbl1"
proof (cases "list_ex (\<lambda>r. ms_user_id r = u) tbl")
  case True
  with assms have "map ms_user_id tbl1 = map ms_user_id tbl"
    by (auto simp: recalculate_conflict overwritten_user_id)
  then have "set (map ms_user_id tbl1) = set (map ms_user_id tbl)" by simp
  with True show ?thesis
    by (auto simp: list_ex_iff image_iff) (metis imageE imageI)
next
  case False
  with assms have "tbl1 = tbl @ [update_access_tier now (mileage_select now activities u)]"
    by (rule recalculate_Inr_fresh)
  then show ?thesis
    by (simp add: update_access_tier_def mileage_select_fields)
qed

lemma mileage_select_same_month:
  assumes "ts_year now2 = ts_year now1" and "ts_month now2 = ts_month now1"
  shows "overwritten now2 (mileage_select now2 activities u) r =
     (overwritten now1 (mileage_select now1 activities u) r)
       \<lparr>last_calculated_at := Some now2, ms_updated_at := Some now2\<rparr>"
  using assms
  by (simp add: overwritten_def mileage_select_fields start_of_current_month_def
      start_of_previous_month_def start_of_current_year_def)

text \<open>
  C8, as amended. After a recalculation at \<open>now1\<close>, a second one at \<open>now2\<close> in the same
  calendar month over the same activities returns, and leaves the table as the first
  left it but for \<open>last_calculated_at\<close> and \<open>updated_at\<close> of the user's row, which are set
  to \<open>now2\<close>; when \<open>now2\<close> is \<open>now1\<close> the table is identical.
\<close>

theorem recalculate_twice_same_month:
  assumes "recalculate_user_mileage now1 users activities tbl u = Inr tbl1"
    and "ts_year now2 = ts_year now1" and "ts_month now2 = ts_month now1"
  shows "recalculate_user_mileage now2 users activities tbl1 u =
       Inr (map (\<lambda>r. if ms_user_id r = u
                      then r\<lparr>last_calculated_at := Some now2, ms_updated_at := Some now2\<rparr>
                      else r) tbl1) \<and>
     (now2 = now1 \<longrightarrow> recalculate_user_mileage now2 users activities tbl1 u = Inr tbl1)"
proof -
  have ex: "list_ex (\<lambda>r. ms_user_id r = u) tbl1"
    using assms(1) by (rule row_after_recalculate)
  have row: "overwritten now2 (mileage_select now2 activities u) r =
      r\<lparr>last_calculated_at := Some now2, ms_updated_at := Some now2\<rparr>"
    if "r \<in> set tbl1" "ms_user_id r = u" for r
    using mileage_select_same_month [OF assms(2,3), of activities u r]
      overwritten_fixed_after_recalculate [OF assms(1) that]
    by simp
  have first: "recalculate_user_mileage now2 users activities tbl1 u =
       Inr (map (\<lambda>r. if ms_user_id r = u
                      then r\<lparr>last_calculated_at := Some now2, ms_updated_at := Some now2\<rparr>
                      else r) tbl1)"
    unfolding recalculate_conflict [OF ex]
    using row by (auto intro: map_cong)
  have same: "r\<lparr>last_calculated_at := Some now1, ms_updated_at := Some now1\<rparr> = r"
    if "r \<in> set tbl1" "ms_user_id r = u" for r
  proof -
    have "overwritten now1 (mileage_select now1 activities u) r = r"
      using assms(1) that by (rule overwritten_fixed_after_recalculate)
    then have "last_calculated_at r = Some now1" "ms_updated_at r = Some now1"
      by (metis (no_types) overwritten_def mileage_summary_row.select_convs mileage_summary_row.update_convs
          mileage_summary_row.surjective)+
    then show ?thesis by simp
  qed
  have second: "recalculate_user_mileage now2 users activities tbl1 u = Inr tbl1" if "now2 = now1"
  proof -
    have "map (\<lambda>r. if ms_user_id r = u
                      then r\<lparr>last_calculated_at := Some now2, ms_updated_at := Some now2\<rparr>
                      else r) tbl1 = tbl1"
      using same that by (simp add: map_idI)
    with first show ?thesis by simp
  qed
  from first second show ?thesis by blast
qed

lemmas eval_defs = at_date_def stored_run_def sample_users_def recalculate_user_mileage_def mileage_select_def Let_def
  ms_insert_def ms_update_def before_update_row_def set_columns_def update_access_tier_def
  check_access_tier_def calculate_access_tier_def is_true_def sql_ge_def coalesce_def sql_sum_def
  ts_le_def ts_less_def date_trunc_month_def date_trunc_year_def minus_one_month_def
  days_in_month_def is_leap_year_def

theorem recalculate_overwrites_from_scan_witness:
  "distinct (map ms_user_id
     [\<lparr>ms_user_id = ''u1'', current_month_miles = Some 99, last_month_miles = Some 1,
      current_year_miles = Some 120, total_miles = Some 300, total_activities = Some 9,
      dc_activities = Some 9, last_activity_date = None,
      ms_access_tier = Some ''basic'', last_calculated_at = Some (at_date 2026 2 1 0),
      ms_created_at = Some (at_date 2025 12 1 0), ms_updated_at = Some (at_date 2026 2 1 0)\<rparr>,
      \<lparr>ms_user_id = ''u2'', current_month_miles = Some 100, last_month_miles = Some 0,
      current_year_miles = Some 100, total_miles = Some 100, total_activities = Some 1,
      dc_activities = Some 1, last_activity_date = Some (at_date 2026 3 6 0),
      ms_access_tier = Some ''premium'', last_calculated_at = Some (at_date 2026 3 7 0),
      ms_created_at = Some (at_date 2026 3 7 0), ms_updated_at = Some (at_date 2026 3 7 0)\<rparr>]) \<and>
   recalculate_user_mileage (at_date 2026 3 31 36000000000) sample_users
     [stored_run ''u1'' 1 (at_date 2026 3 5 0) 16898 (21 / 2) True,
      stored_run ''u1'' 2 (at_date 2026 2 28 0) 8047 5 True,
      stored_run ''u1'' 3 (at_date 2026 1 10 0) 11265 7 False,
      stored_run ''u1'' 4 (at_date 2025 12 25 0) 4828 3 True,
      stored_run ''u2'' 5 (at_date 2026 3 6 0) 160934 100 True]
     [\<lparr>ms_user_id = ''u1'', current_month_miles = Some 99, last_month_miles = Some 1,
      current_year_miles = Some 120, total_miles = Some 300, total_activities = Some 9,
      dc_activities = Some 9, last_activity_date = None,
      ms_access_tier = Some ''basic'', last_calculated_at = Some (at_date 2026 2 1 0),
      ms_created_at = Some (at_date 2025 12 1 0), ms_updated_at = Some (at_date 2026 2 1 0)\<rparr>,
      \<lparr>ms_user_id = ''u2'', current_month_miles = Some 100, last_month_miles = Some 0,
      current_year_miles = Some 100, total_miles = Some 100, total_activities = Some 1,
      dc_activities = Some 1, last_activity_date = Some (at_date 2026 3 6 0),
      ms_access_tier = Some ''premium'', last_calculated_at = Some (at_date 2026 3 7 0),
      ms_created_at = Some (at_date 2026 3 7 0), ms_updated_at = Some (at_date 2026 3 7 0)\<rparr>] ''u1''
   = Inr [\<lparr>ms_user_id = ''u1'', current_month_miles = Some (21 / 2), last_month_miles = Some 5,
      current_year_miles = Some (31 / 2), total_miles = Some (37 / 2), total_activities = Some 4,
      dc_activities = Some 3, last_activity_date = Some (at_date 2026 3 5 0),
      ms_access_tier = Some ''none'', last_calculated_at = Some (at_date 2026 3 31 36000000000),
      ms_created_at = Some (at_date 2025 12 1 0),
      ms_updated_at = Some (at_date 2026 3 31 36000000000)\<rparr>,
      \<lparr>ms_user_id = ''u2'', current_month_miles = Some 100, last_month_miles = Some 0,
      current_year_miles = Some 100, total_miles = Some 100, total_activities = Some 1,
      dc_activities = Some 1, last_activity_date = Some (at_date 2026 3 6 0),
      ms_access_tier = Some ''premium'', last_calculated_at = Some (at_date 2026 3 7 0),
      ms_created_at = Some (at_date 2026 3 7 0), ms_updated_at = Some (at_date 2026 3 7 0)\<rparr>] \<and>
   recalculate_user_mileage (at_date 2026 3 31 36000000000) sample_users
     [stored_run ''u1'' 1 (at_date 2026 3 5 0) 16898 (21 / 2) True,
      stored_run ''u1'' 2 (at_date 2026 2 28 0) 8047 5 True,
      stored_run ''u1'' 3 (at_date 2026 1 10 0) 11265 7 False,
      stored_run ''u1'' 4 (at_date 2025 12 25 0) 4828 3 True,
      stored_run ''u2'' 5 (at_date 2026 3 6 0) 160934 100 True] [] ''u1''
   = Inr [\<lparr>ms_user_id = ''u1'', current_month_miles = Some (21 / 2), last_month_miles = Some 5,
      current_year_miles = Some (31 / 2), total_miles = Some (37 / 2), total_activities = Some 4,
      dc_activities = Some 3, last_activity_date = Some (at_date 2026 3 5 0),
      ms_access_tier = Some ''none'', last_calculated_at = Some (at_date 2026 3 31 36000000000),
      ms_created_at = Some (at_date 2026 3 31 36000000000),
      ms_updated_at = Some (at_date 2026 3 31 36000000000)\<rparr>] \<and>
   in_region_miles (\<lambda>d. ts_le (start_of_previous_month (at_date 2026 3 31 36000000000)) d \<and>
        ts_less d (start_of_current_month (at_date 2026 3 31 36000000000))) ''u1''
     [stored_run ''u1'' 1 (at_date 2026 3 5 0) 16898 (21 / 2) True,
      stored_run ''u1'' 2 (at_date 2026 2 28 0) 8047 5 True,
      stored_run ''u1'' 3 (at_date 2026 1 10 0) 11265 7 False,
      stored_run ''u1'' 4 (at_date 2025 12 25 0) 4828 3 True,
      stored_run ''u2'' 5 (at_date 2026 3 6 0) 160934 100 True] = 5 \<and>
   sample_users ''u9'' = None \<and>
   recalculate_user_mileage (at_date 2026 3 31 36000000000) sample_users
     [stored_run ''u1'' 1 (at_date 2026 3 5 0) 16898 (21 / 2) True,
      stored_run ''u1'' 2 (at_date 2026 2 28 0) 8047 5 True,
      stored_run ''u1'' 3 (at_date 2026 1 10 0) 11265 7 False,
      stored_run ''u1'' 4 (at_date 2025 12 25 0) 4828 3 True,
      stored_run ''u2'' 5 (at_date 2026 3 6 0) 160934 100 True]
     [\<lparr>ms_user_id = ''u1'', current_month_miles = Some 99, last_month_miles = Some 1,
      current_year_miles = Some 120, total_miles = Some 300, total_activities = Some 9,
      dc_activities = Some 9, last_activity_date = None,
      ms_access_tier = Some ''basic'', last_calculated_at = Some (at_date 2026 2 1 0),
      ms_created_at = Some (at_date 2025 12 1 0), ms_updated_at = Some (at_date 2026 2 1 0)\<rparr>,
      \<lparr>ms_user_id = ''u2'', current_month_miles = Some 100, last_month_miles = Some 0,
      current_year_miles = Some 100, total_miles = Some 100, total_activities = Some 1,
      dc_activities = Some 1, last_activity_date = Some (at_date 2026 3 6 0),
      ms_access_tier = Some ''premium'', last_calculated_at = Some (at_date 2026 3 7 0),
      ms_created_at = Some (at_date 2026 3 7 0), ms_updated_at = Some (at_date 2026 3 7 0)\<rparr>] ''u9''
   = Inl (PgError ''23503'' ''mileage_summary_user_id_fkey'')"
  (is "distinct (map ms_user_id ?tbl) \<and>
       recalculate_user_mileage ?now sample_users ?acts ?tbl ?u = Inr ?tbl1 \<and>
       recalculate_user_mileage ?now sample_users ?acts [] ?u = Inr [?row] \<and> ?prev = 5 \<and>
       ?unknown \<and> recalculate_user_mileage ?now sample_users ?acts ?tbl ?v = ?refused")
proof -
  have d: "distinct (map ms_user_id ?tbl)"
    by simp
  have over: "recalculate_user_mileage ?now sample_users ?acts ?tbl ?u = Inr ?tbl1"
    by (simp add: eval_defs)
  have fresh: "recalculate_user_mileage ?now sample_users ?acts [] ?u = Inr [?row]"
    by (simp add: eval_defs)
  have known: "sample_users ?u \<noteq> None \<or> list_ex (\<lambda>x. ms_user_id x = ?u) ?tbl"
    by (simp add: sample_users_def)
  have "Some ?prev = Some 5"
    using recalculate_overwrites_from_scan [OF d, of sample_users ?u ?now ?acts, THEN conjunct1,
        THEN mp, OF known]
    unfolding over by auto
  then have prev: "?prev = 5"
    by simp
  have unknown: ?unknown
    by (simp add: sample_users_def)
  have absent: "\<not> list_ex (\<lambda>x. ms_user_id x = ?v) ?tbl"
    by simp
  have refused: "recalculate_user_mileage ?now sample_users ?acts ?tbl ?v = ?refused"
    using recalculate_overwrites_from_scan [OF d, of sample_users ?v ?now ?acts, THEN conjunct2,
        THEN mp, THEN mp, OF unknown absent] .
  from d over fresh prev unknown refused show ?thesis
    by (intro conjI)
qed

text \<open>
  The claim C8 as stated fails. A user has one in-region activity of 10 miles on
  31 January 2026. The first recalculation runs that day; a second one a millisecond
  later leaves a row with other \<open>last_calculated_at\<close> and \<open>updated_at\<close>, and a second
  one on 1 February moves the 10 miles from the current-month to the prior-month
  distance. In both cases the row after the second call is not the row after the first.
\<close>

theorem recalculate_twice_counterexample:
  "recalculate_user_mileage (at_date 2026 1 31 1000) sample_users
     [stored_run ''u1'' 1 (at_date 2026 1 31 0) 16093 10 True] [] ''u1''
   = Inr [\<lparr>ms_user_id = ''u1'', current_month_miles = Some 10, last_month_miles = Some 0,
      current_year_miles = Some 10, total_miles = Some 10, total_activities = Some 1,
      dc_activities = Some 1, last_activity_date = Some (at_date 2026 1 31 0),
      ms_access_tier = Some ''none'', last_calculated_at = Some (at_date 2026 1 31 1000),
      ms_created_at = Some (at_date 2026 1 31 1000),
      ms_updated_at = Some (at_date 2026 1 31 1000)\<rparr>] \<and>
   recalculate_user_mileage (at_date 2026 1 31 2000) sample_users
     [stored_run ''u1'' 1 (at_date 2026 1 31 0) 16093 10 True]
     [\<lparr>ms_user_id = ''u1'', current_month_miles = Some 10, last_month_miles = Some 0,
      current_year_miles = Some 10, total_miles = Some 10, total_activities = Some 1,
      dc_activities = Some 1, last_activity_date = Some (at_date 2026 1 31 0),
      ms_access_tier = Some ''none'', last_calculated_at = Some (at_date 2026 1 31 1000),
      ms_created_at = Some (at_date 2026 1 31 1000),
      ms_updated_at = Some (at_date 2026 1 31 1000)\<rparr>] ''u1''
   = Inr [\<lparr>ms_user_id = ''u1'', current_month_miles = Some 10, last_month_miles = Some 0,
      current_year_miles = Some 10, total_miles = Some 10, total_activities = Some 1,
      dc_activities = Some 1, last_activity_date = Some (at_date 2026 1 31 0),
      ms_access_tier = Some ''none'', last_calculated_at = Some (at_date 2026 1 31 2000),
      ms_created_at = Some (at_date 2026 1 31 1000),
      ms_updated_at = Some (at_date 2026 1 31 2000)\<rparr>] \<and>
   recalculate_user_mileage (at_date 2026 2 1 0) sample_users
     [stored_run ''u1'' 1 (at_date 2026 1 31 0) 16093 10 True]
     [\<lparr>ms_user_id = ''u1'', current_month_miles = Some 10, last_month_miles = Some 0,
      current_year_miles = Some 10, total_miles = Some 10, total_activities = Some 1,
      dc_activities = Some 1, last_activity_date = Some (at_date 2026 1 31 0),
      ms_access_tier = Some ''none'', last_calculated_at = Some (at_date 2026 1 31 1000),
      ms_created_at = Some (at_date 2026 1 31 1000),
      ms_updated_at = Some (at_date 2026 1 31 1000)\<rparr>] ''u1''
   = Inr [\<lparr>ms_user_id = ''u1'', current_month_miles = Some 0, last_month_miles = Some 10,
      current_year_miles = Some 10, total_miles = Some 10, total_activities = Some 1,
      dc_activities = Some 1, last_activity_date = Some (at_date 2026 1 31 0),
      ms_access_tier = Some ''none'', last_calculated_at = Some (at_date 2026 2 1 0),
      ms_created_at = Some (at_date 2026 1 31 1000),
      ms_updated_at = Some (at_date 2026 2 1 0)\<rparr>] \<and>
   recalculate_user_mileage (at_date 2026 1 31 2000) sample_users
     [stored_run ''u1'' 1 (at_date 2026 1 31 0) 16093 10 True]
     [\<lparr>ms_user_id = ''u1'', current_month_miles = Some 10, last_month_miles = Some 0,
      current_year_miles = Some 10, total_miles = Some 10, total_activities = Some 1,
      dc_activities = Some 1, last_activity_date = Some (at_date 2026 1 31 0),
      ms_access_tier = Some ''none'', last_calculated_at = Some (at_date 2026 1 31 1000),
      ms_created_at = Some (at_date 2026 1 31 1000),
      ms_updated_at = Some (at_date 2026 1 31 1000)\<rparr>] ''u1''
   \<noteq> Inr [\<lparr>ms_user_id = ''u1'', current_month_miles = Some 10, last_month_miles = Some 0,
      current_year_miles = Some 10, total_miles = Some 10, total_activities = Some 1,
      dc_activities = Some 1, last_activity_date = Some (at_date 2026 1 31 0),
      ms_access_tier = Some ''none'', last_calculated_at = Some (at_date 2026 1 31 1000),
      ms_created_at = Some (at_date 2026 1 31 1000),
      ms_updated_at = Some (at_date 2026 1 31 1000)\<rparr>] \<and>
   recalculate_user_mileage (at_date 2026 2 1 0) sample_users
     [stored_run ''u1'' 1 (at_date 2026 1 31 0) 16093 10 True]
     [\<lparr>ms_user_id = ''u1'', current_month_miles = Some 10, last_month_miles = Some 0,
      current_year_miles = Some 10, total_miles = Some 10, total_activities = Some 1,
      dc_activities = Some 1, last_activity_date = Some (at_date 2026 1 31 0),
      ms_access_tier = Some ''none'', last_calculated_at = Some (at_date 2026 1 31 1000),
      ms_created_at = Some (at_date 2026 1 31 1000),
      ms_updated_at = Some (at_date 2026 1 31 1000)\<rparr>] ''u1''
   \<noteq> Inr [\<lparr>ms_user_id = ''u1'', current_month_miles = Some 10, last_month_miles = Some 0,
      current_year_miles = Some 10, total_miles = Some 10, total_activities = Some 1,
      dc_activities = Some 1, last_activity_date = Some (at_date 2026 1 31 0),
      ms_access_tier = Some ''none'', last_calculated_at = Some (at_date 2026 1 31 1000),
      ms_created_at = Some (at_date 2026 1 31 1000),
      ms_updated_at = Some (at_date 2026 1 31 1000)\<rparr>]"
  by (simp add: eval_defs)

theorem recalculate_twice_same_month_witness:
  "recalculate_user_mileage (at_date 2026 1 31 1000) sample_users
     [stored_run ''u1'' 1 (at_date 2026 1 31 0) 16093 10 True] [] ''u1''
   = Inr [\<lparr>ms_user_id = ''u1'', current_month_miles = Some 10, last_month_miles = Some 0,
      current_year_miles = Some 10, total_miles = Some 10, total_activities = Some 1,
      dc_activities = Some 1, last_activity_date = Some (at_date 2026 1 31 0),
      ms_access_tier = Some ''none'', last_calculated_at = Some (at_date 2026 1 31 1000),
      ms_created_at = Some (at_date 2026 1 31 1000),
      ms_updated_at = Some (at_date 2026 1 31 1000)\<rparr>] \<and>
   ts_year (at_date 2026 1 31 2000) = ts_year (at_date 2026 1 31 1000) \<and>
   ts_month (at_date 2026 1 31 2000) = ts_month (at_date 2026 1 31 1000) \<and>
   recalculate_user_mileage (at_date 2026 1 31 2000) sample_users
     [stored_run ''u1'' 1 (at_date 2026 1 31 0) 16093 10 True]
     [\<lparr>ms_user_id = ''u1'', current_month_miles = Some 10, last_month_miles = Some 0,
      current_year_miles = Some 10, total_miles = Some 10, total_activities = Some 1,
      dc_activities = Some 1, last_activity_date = Some (at_date 2026 1 31 0),
      ms_access_tier = Some ''none'', last_calculated_at = Some (at_date 2026 1 31 1000),
      ms_created_at = Some (at_date 2026 1 31 1000),
      ms_updated_at = Some (at_date 2026 1 31 1000)\<rparr>] ''u1''
   = Inr [\<lparr>ms_user_id = ''u1'', current_month_miles = Some 10, last_month_miles = Some 0,
      current_year_miles = Some 10, total_miles = Some 10, total_activities = Some 1,
      dc_activities = Some 1, last_activity_date = Some (at_date 2026 1 31 0),
      ms_access_tier = Some ''none'', last_calculated_at = Some (at_date 2026 1 31 2000),
      ms_created_at = Some (at_date 2026 1 31 1000),
      ms_updated_at = Some (at_date 2026 1 31 2000)\<rparr>] \<and>
   recalculate_user_mileage (at_date 2026 1 31 1000) sample_users
     [stored_run ''u1'' 1 (at_date 2026 1 31 0) 16093 10 True]
     [\<lparr>ms_user_id = ''u1'', current_month_miles = Some 10, last_month_miles = Some 0,
      current_year_miles = Some 10, total_miles = Some 10, total_activities = Some 1,
      dc_activities = Some 1, last_activity_date = Some (at_date 2026 1 31 0),
      ms_access_tier = Some ''none'', last_calculated_at = Some (at_date 2026 1 31 1000),
      ms_created_at = Some (at_date 2026 1 31 1000),
      ms_updated_at = Some (at_date 2026 1 31 1000)\<rparr>] ''u1''
   = Inr [\<lparr>ms_user_id = ''u1'', current_month_miles = Some 10, last_month_miles = Some 0,
      current_year_miles = Some 10, total_miles = Some 10, total_activities = Some 1,
      dc_activities = Some 1, last_activity_date = Some (at_date 2026 1 31 0),
      ms_access_tier = Some ''none'', last_calculated_at = Some (at_date 2026 1 31 1000),
      ms_created_at = Some (at_date 2026 1 31 1000),
      ms_updated_at = Some (at_date 2026 1 31 1000)\<rparr>]"
  (is "recalculate_user_mileage ?t1 sample_users ?acts [] ?u = Inr ?tbl1 \<and> ?y \<and> ?m \<and>
       recalculate_user_mileage ?t2 sample_users ?acts ?tbl1 ?u = Inr ?tbl2 \<and>
       recalculate_user_mileage ?t1 sample_users ?acts ?tbl1 ?u = Inr ?tbl1")
proof -
  have first: "recalculate_user_mileage ?t1 sample_users ?acts [] ?u = Inr ?tbl1"
    by (simp add: eval_defs)
  have y: ?y and m: ?m
    by (simp_all add: at_date_def)
  have "recalculate_user_mileage ?t2 sample_users ?acts ?tbl1 ?u = Inr ?tbl2"
    using recalculate_twice_same_month [OF first y m] by simp
  moreover have "recalculate_user_mileage ?t1 sample_users ?acts ?tbl1 ?u = Inr ?tbl1"
    using recalculate_twice_same_month [OF first refl refl] by simp
  ultimately show ?thesis
    using first y m by blast
qed

section \<open>Theorems: drop qualification\<close>

lemma has_grant_append: "has_grant (tbl @ new) d u = (has_grant tbl d u \<or> has_grant new d u)"
  by (auto simp: has_grant_def list_ex_iff)

lemma insert_drop_access_step:
  assumes "t = ''basic'' \<or> t = ''premium'' \<or> t = ''exclusive''"
  shows "insert_drop_access now ((d, u, t, Some miles) # rest) tbl =
     (if has_grant tbl d u then insert_drop_access now rest tbl
      else insert_drop_access now rest
             (tbl @ [\<lparr>da_drop_id = d, da_user_id = u, da_access_tier = t,
                      qualified_at = Some now, mileage_at_qualification = miles,
                      notified_at = None, first_viewed_at = None,
                      da_created_at = Some now\<rparr>]))"
  using assms by (auto simp: has_grant_def)

lemma insert_drop_access_appends:
  assumes "insertable rows"
  shows "\<exists>new. insert_drop_access now rows tbl = Inr (tbl @ new) \<and>
     (\<forall>g \<in> set new. \<not> has_grant tbl (da_drop_id g) (da_user_id g) \<and>
        (\<exists>row \<in> set rows. da_drop_id g = fst row \<and> da_user_id g = fst (snd row))) \<and>
     (\<forall>row \<in> set rows. has_grant (tbl @ new) (fst row) (fst (snd row)))"
  using assms
proof (induction rows arbitrary: tbl)
  case Nil
  show ?case by simp
next
  case (Cons row rows)
  obtain d u t m where row: "row = (d, u, t, m)"
    by (cases row) auto
  from Cons.prems row obtain miles where m: "m = Some miles"
    and t: "t = ''basic'' \<or> t = ''premium'' \<or> t = ''exclusive''"
    and rest: "insertable rows"
    by (auto simp: insertable_def)
  note step = insert_drop_access_step [OF t, of now d u miles rows tbl]
  show ?case
  proof (cases "has_grant tbl d u")
    case True
    from Cons.IH [OF rest, of tbl] obtain new where
      new: "insert_drop_access now rows tbl = Inr (tbl @ new)"
        "\<forall>g \<in> set new. \<not> has_grant tbl (da_drop_id g) (da_user_id g) \<and>
           (\<exists>row \<in> set rows. da_drop_id g = fst row \<and> da_user_id g = fst (snd row))"
        "\<forall>row \<in> set rows. has_grant (tbl @ new) (fst row) (fst (snd row))"
      by blast
    have 1: "insert_drop_access now (row # rows) tbl = Inr (tbl @ new)"
      unfolding row m step using True new(1) by simp
    have 2: "\<forall>g \<in> set new. \<not> has_grant tbl (da_drop_id g) (da_user_id g) \<and>
           (\<exists>r \<in> set (row # rows). da_drop_id g = fst r \<and> da_user_id g = fst (snd r))"
      using new(2) by auto
    have 3: "\<forall>r \<in> set (row # rows). has_grant (tbl @ new) (fst r) (fst (snd r))"
      using new(3) True by (simp add: row has_grant_append)
    from 1 2 3 show ?thesis by blast
  next
    case False
    let ?g = "\<lparr>da_drop_id = d, da_user_id = u, da_access_tier = t,
               qualified_at = Some now, mileage_at_qualification = miles,
               notified_at = None, first_viewed_at = None, da_created_at = Some now\<rparr>"
    from Cons.IH [OF rest, of "tbl @ [?g]"] obtain new where
      new: "insert_drop_access now rows (tbl @ [?g]) = Inr ((tbl @ [?g]) @ new)"
        "\<forall>g \<in> set new. \<not> has_grant (tbl @ [?g]) (da_drop_id g) (da_user_id g) \<and>
           (\<exists>row \<in> set rows. da_drop_id g = fst row \<and> da_user_id g = fst (snd row))"
        "\<forall>row \<in> set rows. has_grant ((tbl @ [?g]) @ new) (fst row) (fst (snd row))"
      by blast
    have 1: "insert_drop_access now (row # rows) tbl = Inr (tbl @ (?g # new))"
      unfolding row m step using False new(1) by simp
    have 2: "\<forall>g \<in> set (?g # new). \<not> has_grant tbl (da_drop_id g) (da_user_id g) \<and>
           (\<exists>r \<in> set (row # rows). da_drop_id g = fst r \<and> da_user_id g = fst (snd r))"
      using False new(2) by (auto simp: row has_grant_append)
    have 3: "\<forall>r \<in> set (row # rows). has_grant (tbl @ (?g # new)) (fst r) (fst (snd r))"
      using new(3) by (simp add: row has_grant_append has_grant_def)
    from 1 2 3 show ?thesis by blast
  qed
qed

lemma insert_drop_access_all_granted:
  assumes "insertable rows"
    and "\<forall>row \<in> set rows. has_grant tbl (fst row) (fst (snd row))"
  shows "insert_drop_access now rows tbl = Inr tbl"
  using assms
proof (induction rows)
  case Nil
  show ?case by simp
next
  case (Cons row rows)
  obtain d u t m where row: "row = (d, u, t, m)"
    by (cases row) auto
  from Cons.prems(1) row obtain miles where m: "m = Some miles"
    and t: "t = ''basic'' \<or> t = ''premium'' \<or> t = ''exclusive''"
    and rest: "insertable rows"
    by (auto simp: insertable_def)
  from Cons.prems(2) have g: "has_grant tbl d u"
    and others: "\<forall>row \<in> set rows. has_grant tbl (fst row) (fst (snd row))"
    by (simp_all add: row)
  show ?case
    unfolding row m insert_drop_access_step [OF t]
    using g Cons.IH [OF rest others] by simp
qed

lemma is_true_sql_ge_not_null: "is_true (sql_ge a b) \<Longrightarrow> a \<noteq> None"
  by (auto simp: is_true_def sql_ge_def split: option.splits)

lemma is_true_sql_and: "is_true (sql_and p q) = (is_true p \<and> is_true q)"
  by (auto simp: is_true_def sql_and_def)

lemma insertable_selected:
  assumes "t = ''basic'' \<or> t = ''premium'' \<or> t = ''exclusive''"
    and "\<And>r. sel r \<Longrightarrow> current_month_miles r \<noteq> None"
  shows "insertable (map (\<lambda>r. (p, ms_user_id r, t, current_month_miles r)) (filter sel rows))"
  using assms by (auto simp: insertable_def list_all_iff)

lemma grant_result:
  assumes "find (\<lambda>d. drops_id d = p) drops = Some v_drop"
  shows "\<exists>new. grant_drop_access_to_qualifying_users now drops ms da p =
       Inr (int (length (filter (\<lambda>g. da_drop_id g = p) (da @ new))), da @ new) \<and>
     (\<forall>g \<in> set new. da_drop_id g = p \<and> \<not> has_grant da p (da_user_id g)) \<and>
     (\<forall>r \<in> set ms. qualifies v_drop r \<longrightarrow> has_grant (da @ new) p (ms_user_id r))"
proof -
  let ?e = "\<lambda>r. is_true (sql_ge (current_month_miles r) (required_miles_exclusive v_drop))"
  let ?p = "\<lambda>r. is_true (sql_and (sql_ge (current_month_miles r) (required_miles_premium v_drop))
                 (sql_lt (current_month_miles r) (required_miles_exclusive v_drop)))"
  let ?b = "\<lambda>r. is_true (sql_and (sql_ge (current_month_miles r) (required_miles_basic v_drop))
                 (sql_lt (current_month_miles r) (required_miles_premium v_drop)))"
  let ?rows = "\<lambda>t sel. map (\<lambda>r. (p, ms_user_id r, t, current_month_miles r)) (filter sel ms)"
  have ie: "insertable (?rows ''exclusive'' ?e)"
    by (rule insertable_selected) (auto dest: is_true_sql_ge_not_null)
  have ip: "insertable (?rows ''premium'' ?p)"
    by (rule insertable_selected) (auto simp: is_true_sql_and dest: is_true_sql_ge_not_null)
  have ib: "insertable (?rows ''basic'' ?b)"
    by (rule insertable_selected) (auto simp: is_true_sql_and dest: is_true_sql_ge_not_null)
  from insert_drop_access_appends [OF ie, of now da] obtain n1 where
    n1: "insert_drop_access now (?rows ''exclusive'' ?e) da = Inr (da @ n1)"
      "\<forall>g \<in> set n1. \<not> has_grant da (da_drop_id g) (da_user_id g) \<and>
           (\<exists>row \<in> set (?rows ''exclusive'' ?e). da_drop_id g = fst row \<and> da_user_id g = fst (snd row))"
      "\<forall>row \<in> set (?rows ''exclusive'' ?e). has_grant (da @ n1) (fst row) (fst (snd row))"
    by blast
  from insert_drop_access_appends [OF ip, of now "da @ n1"] obtain n2 where
    n2: "insert_drop_access now (?rows ''premium'' ?p) (da @ n1) = Inr ((da @ n1) @ n2)"
      "\<forall>g \<in> set n2. \<not> has_grant (da @ n1) (da_drop_id g) (da_user_id g) \<and>
           (\<exists>row \<in> set (?rows ''premium'' ?p). da_drop_id g = fst row \<and> da_user_id g = fst (snd row))"
      "\<forall>row \<in> set (?rows ''premium'' ?p). has_grant ((da @ n1) @ n2) (fst row) (fst (snd row))"
    by blast
  from insert_drop_access_appends [OF ib, of now "(da @ n1) @ n2"] obtain n3 where
    n3: "insert_drop_access now (?rows ''basic'' ?b) ((da @ n1) @ n2) = Inr (((da @ n1) @ n2) @ n3)"
      "\<forall>g \<in> set n3. \<not> has_grant ((da @ n1) @ n2) (da_drop_id g) (da_user_id g) \<and>
           (\<exists>row \<in> set (?rows ''basic'' ?b). da_drop_id g = fst row \<and> da_user_id g = fst (snd row))"
      "\<forall>row \<in> set (?rows ''basic'' ?b). has_grant (((da @ n1) @ n2) @ n3) (fst row) (fst (snd row))"
    by blast
  let ?new = "n1 @ n2 @ n3"
  have res: "grant_drop_access_to_qualifying_users now drops ms da p =
       Inr (int (length (filter (\<lambda>g. da_drop_id g = p) (da @ ?new))), da @ ?new)"
  proof -
    have s2: "insert_drop_access now (?rows ''premium'' ?p) (da @ n1) = Inr (da @ n1 @ n2)"
      using n2(1) by simp
    have s3: "insert_drop_access now (?rows ''basic'' ?b) (da @ n1 @ n2) = Inr (da @ n1 @ n2 @ n3)"
      using n3(1) by simp
    show ?thesis
      unfolding grant_drop_access_to_qualifying_users_def
      by (simp add: assms n1(1) s2 s3 Let_def)
  qed
  have fresh: "\<forall>g \<in> set ?new. da_drop_id g = p \<and> \<not> has_grant da p (da_user_id g)"
  proof
    fix g assume "g \<in> set ?new"
    then consider "g \<in> set n1" | "g \<in> set n2" | "g \<in> set n3" by auto
    then show "da_drop_id g = p \<and> \<not> has_grant da p (da_user_id g)"
    proof cases
      case 1
      with n1(2) show ?thesis by fastforce
    next
      case 2
      with n2(2) show ?thesis by (fastforce simp: has_grant_append)
    next
      case 3
      with n3(2) show ?thesis by (fastforce simp: has_grant_append)
    qed
  qed
  have granted: "\<forall>r \<in> set ms. qualifies v_drop r \<longrightarrow> has_grant (da @ ?new) p (ms_user_id r)"
  proof (intro ballI impI)
    fix r assume r: "r \<in> set ms" and q: "qualifies v_drop r"
    from q consider "?e r" | "?p r" | "?b r" by (auto simp: qualifies_def)
    then show "has_grant (da @ ?new) p (ms_user_id r)"
    proof cases
      case 1
      with r have "(p, ms_user_id r, ''exclusive'', current_month_miles r) \<in> set (?rows ''exclusive'' ?e)"
        by simp
      with n1(3) have "has_grant (da @ n1) p (ms_user_id r)" by fastforce
      then show ?thesis by (auto simp: has_grant_append)
    next
      case 2
      with r have "(p, ms_user_id r, ''premium'', current_month_miles r) \<in> set (?rows ''premium'' ?p)"
        by simp
      with n2(3) have "has_grant ((da @ n1) @ n2) p (ms_user_id r)" by fastforce
      then show ?thesis by (auto simp: has_grant_append)
    next
      case 3
      with r have "(p, ms_user_id r, ''basic'', current_month_miles r) \<in> set (?rows ''basic'' ?b)"
        by simp
      with n3(3) have "has_grant (((da @ n1) @ n2) @ n3) p (ms_user_id r)" by fastforce
      then show ?thesis by (auto simp: has_grant_append)
    qed
  qed
  from res fresh granted show ?thesis by blast
qed

lemma grant_all_granted:
  assumes "find (\<lambda>d. drops_id d = p) drops = Some v_drop"
    and "\<forall>r \<in> set ms. qualifies v_drop r \<longrightarrow> has_grant da p (ms_user_id r)"
  shows "grant_drop_access_to_qualifying_users now drops ms da p =
       Inr (int (length (filter (\<lambda>g. da_drop_id g = p) da)), da)"
proof -
  let ?e = "\<lambda>r. is_true (sql_ge (current_month_miles r) (required_miles_exclusive v_drop))"
  let ?p = "\<lambda>r. is_true (sql_and (sql_ge (current_month_miles r) (required_miles_premium v_drop))
                 (sql_lt (current_month_miles r) (required_miles_exclusive v_drop)))"
  let ?b = "\<lambda>r. is_true (sql_and (sql_ge (current_month_miles r) (required_miles_basic v_drop))
                 (sql_lt (current_month_miles r) (required_miles_premium v_drop)))"
  let ?rows = "\<lambda>t sel. map (\<lambda>r. (p, ms_user_id r, t, current_month_miles r)) (filter sel ms)"
  have ie: "insertable (?rows ''exclusive'' ?e)"
    by (rule insertable_selected) (auto dest: is_true_sql_ge_not_null)
  have ip: "insertable (?rows ''premium'' ?p)"
    by (rule insertable_selected) (auto simp: is_true_sql_and dest: is_true_sql_ge_not_null)
  have ib: "insertable (?rows ''basic'' ?b)"
    by (rule insertable_selected) (auto simp: is_true_sql_and dest: is_true_sql_ge_not_null)
  have e: "insert_drop_access now (?rows ''exclusive'' ?e) da = Inr da"
    using assms(2) by (intro insert_drop_access_all_granted [OF ie]) (auto simp: qualifies_def)
  have p: "insert_drop_access now (?rows ''premium'' ?p) da = Inr da"
    using assms(2) by (intro insert_drop_access_all_granted [OF ip]) (auto simp: qualifies_def)
  have b: "insert_drop_access now (?rows ''basic'' ?b) da = Inr da"
    using assms(2) by (intro insert_drop_access_all_granted [OF ib]) (auto simp: qualifies_def)
  show ?thesis
    unfolding grant_drop_access_to_qualifying_users_def
    by (simp add: assms(1) e p b Let_def)
qed

lemma has_grant_iff: "has_grant tbl d u = user_has_drop_access tbl u d"
  by (simp add: has_grant_def user_has_drop_access_def conj_commute)

lemma find_drop:
  "list_ex (\<lambda>d. drops_id d = p) drops \<Longrightarrow> \<exists>v_drop. find (\<lambda>d. drops_id d = p) drops = Some v_drop"
  by (cases "find (\<lambda>d. drops_id d = p) drops") (auto simp: find_None_iff list_ex_iff)

lemma grant_Inr_find:
  "grant_drop_access_to_qualifying_users now drops ms da p = Inr res \<Longrightarrow>
   \<exists>v_drop. find (\<lambda>d. drops_id d = p) drops = Some v_drop"
  by (cases "find (\<lambda>d. drops_id d = p) drops")
    (simp_all add: grant_drop_access_to_qualifying_users_def)

text \<open>
  C1. When the drop id resolves to a drop, \<open>grant_drop_access_to_qualifying_users\<close>
  returns, and the count it returns is the number of rows of \<open>drop_access\<close> for that
  drop as the call leaves the table: the rows for the drop that were there before the
  call plus the rows the call created.
\<close>

theorem grant_returns_total_count:
  assumes "list_ex (\<lambda>d. drops_id d = p) drops"
  shows "\<exists>new. grant_drop_access_to_qualifying_users now drops ms da p =
       Inr (int (length (filter (\<lambda>g. da_drop_id g = p) (da @ new))), da @ new) \<and>
     int (length (filter (\<lambda>g. da_drop_id g = p) (da @ new))) =
       int (length (filter (\<lambda>g. da_drop_id g = p) da)) + int (length new)"
proof -
  from assms obtain v_drop where "find (\<lambda>d. drops_id d = p) drops = Some v_drop"
    by (blast dest: find_drop)
  from grant_result [OF this, of now ms da] obtain new where
    res: "grant_drop_access_to_qualifying_users now drops ms da p =
       Inr (int (length (filter (\<lambda>g. da_drop_id g = p) (da @ new))), da @ new)"
    and fresh: "\<forall>g \<in> set new. da_drop_id g = p \<and> \<not> has_grant da p (da_user_id g)"
    by blast
  from fresh have "filter (\<lambda>g. da_drop_id g = p) new = new"
    by (simp add: filter_id_conv)
  then have "int (length (filter (\<lambda>g. da_drop_id g = p) (da @ new))) =
       int (length (filter (\<lambda>g. da_drop_id g = p) da)) + int (length new)"
    by simp
  with res show ?thesis by blast
qed

theorem grant_returns_total_count_witness:
  "list_ex (\<lambda>d. drops_id d = ''d1'')
     [\<lparr>drops_id = ''d1'', required_miles_basic = Some 50, required_miles_premium = Some 100,
       required_miles_exclusive = Some 150\<rparr>] \<and>
   grant_drop_access_to_qualifying_users (at_date 2026 2 1 0)
     [\<lparr>drops_id = ''d1'', required_miles_basic = Some 50, required_miles_premium = Some 100,
       required_miles_exclusive = Some 150\<rparr>]
     [summary_with ''u1'' 120, summary_with ''u2'' 30, summary_with ''u3'' 160]
     [\<lparr>da_drop_id = ''d1'', da_user_id = ''u1'', da_access_tier = ''basic'',
       qualified_at = Some (at_date 2026 1 20 0), mileage_at_qualification = 60,
       notified_at = None, first_viewed_at = None, da_created_at = Some (at_date 2026 1 20 0)\<rparr>,
      \<lparr>da_drop_id = ''d0'', da_user_id = ''u2'', da_access_tier = ''basic'',
       qualified_at = Some (at_date 2025 12 1 0), mileage_at_qualification = 55,
       notified_at = None, first_viewed_at = None, da_created_at = Some (at_date 2025 12 1 0)\<rparr>]
     ''d1''
   = Inr (2,
     [\<lparr>da_drop_id = ''d1'', da_user_id = ''u1'', da_access_tier = ''basic'',
       qualified_at = Some (at_date 2026 1 20 0), mileage_at_qualification = 60,
       notified_at = None, first_viewed_at = None, da_created_at = Some (at_date 2026 1 20 0)\<rparr>,
      \<lparr>da_drop_id = ''d0'', da_user_id = ''u2'', da_access_tier = ''basic'',
       qualified_at = Some (at_date 2025 12 1 0), mileage_at_qualification = 55,
       notified_at = None, first_viewed_at = None, da_created_at = Some (at_date 2025 12 1 0)\<rparr>,
      \<lparr>da_drop_id = ''d1'', da_user_id = ''u3'', da_access_tier = ''exclusive'',
       qualified_at = Some (at_date 2026 2 1 0), mileage_at_qualification = 160,
       notified_at = None, first_viewed_at = None, da_created_at = Some (at_date 2026 2 1 0)\<rparr>])"
  (is "?found \<and> grant_drop_access_to_qualifying_users ?now ?drops ?ms ?da ?p = Inr (2, ?da')")
proof -
  have found: ?found by simp
  have ev: "grant_drop_access_to_qualifying_users ?now ?drops ?ms ?da ?p = Inr (2, ?da')"
    by (simp add: grant_drop_access_to_qualifying_users_def summary_with_def at_date_def
        is_true_def sql_ge_def sql_lt_def sql_and_def)
  from grant_returns_total_count [OF found, of ?now ?ms ?da] ev
  have "\<exists>new. ?da' = ?da @ new \<and> int (length (filter (\<lambda>g. da_drop_id g = ?p) ?da')) = 1 + int (length new)"
    by auto
  with found ev show ?thesis by blast
qed

text \<open>
  C2. A call that returns leaves the rows of every (drop, user) pair that had a grant
  exactly as they were: same tier, same frozen mileage, no second row; this whatever the
  mileage summaries are at the call. And after a call that returned, a later call for
  the same drop, with summaries that differ from the earlier ones only for users who
  hold a grant for the drop, leaves the table of grants as it is and returns the same
  count.
\<close>

theorem grant_keeps_existing_grants:
  "(grant_drop_access_to_qualifying_users now drops ms da p = Inr (n, da') \<longrightarrow>
      user_has_drop_access da u d \<longrightarrow>
      filter (\<lambda>g. da_drop_id g = d \<and> da_user_id g = u) da' =
      filter (\<lambda>g. da_drop_id g = d \<and> da_user_id g = u) da) \<and>
   (grant_drop_access_to_qualifying_users now1 drops ms1 da0 p = Inr (n1, da1) \<longrightarrow>
      (\<forall>r \<in> set ms2. r \<in> set ms1 \<or> user_has_drop_access da1 (ms_user_id r) p) \<longrightarrow>
      grant_drop_access_to_qualifying_users now2 drops ms2 da1 p = Inr (n1, da1))"
proof (intro conjI impI)
  assume res: "grant_drop_access_to_qualifying_users now drops ms da p = Inr (n, da')"
    and has: "user_has_drop_access da u d"
  from res obtain v_drop where "find (\<lambda>d. drops_id d = p) drops = Some v_drop"
    by (blast dest: grant_Inr_find)
  from grant_result [OF this, of now ms da] res obtain new where
    da': "da' = da @ new"
    and fresh: "\<forall>g \<in> set new. da_drop_id g = p \<and> \<not> has_grant da p (da_user_id g)"
    by auto
  have "filter (\<lambda>g. da_drop_id g = d \<and> da_user_id g = u) new = []"
    using fresh has by (auto simp: filter_empty_conv has_grant_iff)
  then show "filter (\<lambda>g. da_drop_id g = d \<and> da_user_id g = u) da' =
      filter (\<lambda>g. da_drop_id g = d \<and> da_user_id g = u) da"
    by (simp add: da')
next
  assume res: "grant_drop_access_to_qualifying_users now1 drops ms1 da0 p = Inr (n1, da1)"
    and changed: "\<forall>r \<in> set ms2. r \<in> set ms1 \<or> user_has_drop_access da1 (ms_user_id r) p"
  from res obtain v_drop where found: "find (\<lambda>d. drops_id d = p) drops = Some v_drop"
    by (blast dest: grant_Inr_find)
  from grant_result [OF found, of now1 ms1 da0] res obtain new where
    da1: "da1 = da0 @ new"
    and n1: "n1 = int (length (filter (\<lambda>g. da_drop_id g = p) da1))"
    and granted: "\<forall>r \<in> set ms1. qualifies v_drop r \<longrightarrow> has_grant da1 p (ms_user_id r)"
    by auto
  have "\<forall>r \<in> set ms2. qualifies v_drop r \<longrightarrow> has_grant da1 p (ms_user_id r)"
    using changed granted by (auto simp: has_grant_iff)
  from grant_all_granted [OF found this, of now2]
  show "grant_drop_access_to_qualifying_users now2 drops ms2 da1 p = Inr (n1, da1)"
    by (simp add: n1)
qed

theorem grant_keeps_existing_grants_witness:
  "grant_drop_access_to_qualifying_users (at_date 2026 2 1 0)
     [\<lparr>drops_id = ''d1'', required_miles_basic = Some 50, required_miles_premium = Some 100,
       required_miles_exclusive = Some 150\<rparr>]
     [summary_with ''u1'' 120, summary_with ''u2'' 30] [] ''d1''
   = Inr (1,
     [\<lparr>da_drop_id = ''d1'', da_user_id = ''u1'', da_access_tier = ''premium'',
       qualified_at = Some (at_date 2026 2 1 0), mileage_at_qualification = 120,
       notified_at = None, first_viewed_at = None, da_created_at = Some (at_date 2026 2 1 0)\<rparr>]) \<and>
   user_has_drop_access
     [\<lparr>da_drop_id = ''d1'', da_user_id = ''u1'', da_access_tier = ''premium'',
       qualified_at = Some (at_date 2026 2 1 0), mileage_at_qualification = 120,
       notified_at = None, first_viewed_at = None, da_created_at = Some (at_date 2026 2 1 0)\<rparr>]
     ''u1'' ''d1'' \<and>
   grant_drop_access_to_qualifying_users (at_date 2026 2 20 0)
     [\<lparr>drops_id = ''d1'', required_miles_basic = Some 50, required_miles_premium = Some 100,
       required_miles_exclusive = Some 150\<rparr>]
     [summary_with ''u1'' 160, summary_with ''u2'' 30]
     [\<lparr>da_drop_id = ''d1'', da_user_id = ''u1'', da_access_tier = ''premium'',
       qualified_at = Some (at_date 2026 2 1 0), mileage_at_qualification = 120,
       notified_at = None, first_viewed_at = None, da_created_at = Some (at_date 2026 2 1 0)\<rparr>]
     ''d1''
   = Inr (1,
     [\<lparr>da_drop_id = ''d1'', da_user_id = ''u1'', da_access_tier = ''premium'',
       qualified_at = Some (at_date 2026 2 1 0), mileage_at_qualification = 120,
       notified_at = None, first_viewed_at = None, da_created_at = Some (at_date 2026 2 1 0)\<rparr>])"
  (is "grant_drop_access_to_qualifying_users ?t1 ?drops ?ms1 [] ?p = Inr (1, ?da1) \<and> ?has \<and>
       grant_drop_access_to_qualifying_users ?t2 ?drops ?ms2 ?da1 ?p = Inr (1, ?da1)")
proof -
  have first: "grant_drop_access_to_qualifying_users ?t1 ?drops ?ms1 [] ?p = Inr (1, ?da1)"
    by (simp add: grant_drop_access_to_qualifying_users_def summary_with_def at_date_def
        is_true_def sql_ge_def sql_lt_def sql_and_def)
  have has: ?has
    by (simp add: user_has_drop_access_def)
  have changed: "\<forall>r \<in> set ?ms2. r \<in> set ?ms1 \<or> user_has_drop_access ?da1 (ms_user_id r) ?p"
    by (simp add: user_has_drop_access_def summary_with_def)
  have second: "grant_drop_access_to_qualifying_users ?t2 ?drops ?ms2 ?da1 ?p = Inr (1, ?da1)"
    using grant_keeps_existing_grants [THEN conjunct2, THEN mp, THEN mp, OF first changed] .
  from first has second show ?thesis by blast
qed

section \<open>Theorems: unit conversion\<close>

lemma bit_length_bounds: "0 < n \<Longrightarrow> 2 ^ (bit_length n - 1) \<le> n \<and> n < 2 ^ bit_length n"
proof (induction n rule: bit_length.induct)
  case (1 n)
  show ?case
  proof (cases "n div 2 = 0")
    case True
    with "1.prems" have "n = 1" by auto
    then have "bit_length n = 1"
      by (simp add: bit_length.simps [of "Suc 0"] bit_length.simps [of 0])
    with \<open>n = 1\<close> show ?thesis by simp
  next
    case False
    then have pos: "0 < n div 2" by simp
    from "1.IH" [OF _ pos] "1.prems"
    have ih: "2 ^ (bit_length (n div 2) - 1) \<le> n div 2" "n div 2 < 2 ^ bit_length (n div 2)"
      by auto
    have bl: "bit_length n = Suc (bit_length (n div 2))"
      using "1.prems" by (subst bit_length.simps) simp
    have "0 < bit_length (n div 2)"
      using pos by (subst bit_length.simps) simp
    then obtain k where k: "bit_length (n div 2) = Suc k"
      by (cases "bit_length (n div 2)") auto
    from ih k have "2 ^ k \<le> n div 2" "n div 2 < 2 ^ Suc k" by simp_all
    then have "2 * 2 ^ k \<le> n" "n < 2 * 2 ^ Suc k" by linarith+
    then show ?thesis by (simp add: bl k)
  qed
qed

lemma bit_length_pos: "0 < n \<Longrightarrow> 0 < bit_length n"
  by (subst bit_length.simps) simp

lemma bit_length_rat_bounds:
  fixes y :: rat
  assumes "1 \<le> y"
  shows "2 ^ (bit_length (nat \<lfloor>y\<rfloor>) - 1) \<le> y \<and> y < 2 ^ bit_length (nat \<lfloor>y\<rfloor>)"
proof -
  define n where "n = nat \<lfloor>y\<rfloor>"
  have fl: "1 \<le> \<lfloor>y\<rfloor>" using assms by linarith
  then have n0: "0 < n" by (simp add: n_def)
  have n_int: "rat_of_nat n = rat_of_int \<lfloor>y\<rfloor>" using fl by (simp add: n_def)
  have n1: "rat_of_nat n \<le> y" unfolding n_int by (rule of_int_floor_le)
  have n2: "y < rat_of_nat n + 1" unfolding n_int by linarith
  from bit_length_bounds [OF n0] have b: "2 ^ (bit_length n - 1) \<le> n" "n < 2 ^ bit_length n"
    by simp_all
  have p: "(2::rat) ^ k = rat_of_nat (2 ^ k)" for k by simp
  have "rat_of_nat (2 ^ (bit_length n - 1)) \<le> rat_of_nat n"
    using b(1) by (rule of_nat_mono)
  then have lo: "(2::rat) ^ (bit_length n - 1) \<le> y"
    unfolding p using n1 by (rule order_trans)
  have "n + 1 \<le> 2 ^ bit_length n" using b(2) by simp
  then have "rat_of_nat (n + 1) \<le> rat_of_nat (2 ^ bit_length n)"
    by (rule of_nat_mono)
  then have "rat_of_nat n + 1 \<le> (2::rat) ^ bit_length n"
    by simp
  with n2 have hi: "y < (2::rat) ^ bit_length n"
    by (rule less_le_trans)
  from lo hi show ?thesis by (simp only: n_def)
qed

lemma floor_log2_bounds:
  assumes "0 < x"
  shows "2 powi (floor_log2 x) \<le> x \<and> x < 2 powi (floor_log2 x + 1)"
proof (cases "1 \<le> x")
  case True
  define b where "b = bit_length (nat \<lfloor>x\<rfloor>)"
  from bit_length_rat_bounds [OF True] have lo: "2 ^ (b - 1) \<le> x" and hi: "x < 2 ^ b"
    by (simp_all add: b_def)
  have "1 \<le> \<lfloor>x\<rfloor>" using True by linarith
  then have "0 < nat \<lfloor>x\<rfloor>" by simp
  then have bpos: "0 < b" unfolding b_def by (rule bit_length_pos)
  have fl: "floor_log2 x = int b - 1"
    using True by (simp add: floor_log2_def b_def)
  have e1: "int b - 1 = int (b - 1)" and e2: "int b - 1 + 1 = int b"
    using bpos by simp_all
  show ?thesis
    unfolding fl e2 unfolding e1 power_int_of_nat using lo hi by (rule conjI)
next
  case False
  define y where "y = 1 / x"
  define b where "b = bit_length (nat \<lfloor>y\<rfloor>)"
  have y1: "1 \<le> y" using False assms by (simp add: y_def)
  have ypos: "0 < y" using y1 by linarith
  from bit_length_rat_bounds [OF y1] have lo: "2 ^ (b - 1) \<le> y" and hi: "y < 2 ^ b"
    by (simp_all add: b_def)
  have "1 \<le> \<lfloor>y\<rfloor>" using y1 by linarith
  then have "0 < nat \<lfloor>y\<rfloor>" by simp
  then have bpos: "0 < b" unfolding b_def by (rule bit_length_pos)
  have x: "x = 1 / y" by (simp add: y_def)
  have "1 / (2::rat) ^ b < 1 / y"
    using hi ypos by (simp add: frac_less2)
  then have xlo: "2 powi (- int b) < x"
    unfolding x by (simp add: power_int_minus_divide)
  have "1 / y \<le> 1 / (2::rat) ^ (b - 1)"
    using lo by (simp add: frac_le)
  moreover have e: "1 - int b = - int (b - 1)"
    using bpos by simp
  ultimately have xhi: "x \<le> 2 powi (1 - int b)"
    unfolding x e by (simp add: power_int_minus_divide)
  have fl_if: "floor_log2 x = (if x = 2 powi (1 - int b) then 1 - int b else - int b)"
    using False by (simp add: floor_log2_def b_def y_def Let_def)
  show ?thesis
  proof (cases "x = 2 powi (1 - int b)")
    case True
    have fl: "floor_log2 x = 1 - int b"
      unfolding fl_if using True by (rule if_P)
    have "(2::rat) powi (1 - int b) < 2 powi (1 - int b + 1)"
      by (rule power_int_strict_increasing) simp_all
    then have "x < 2 powi (1 - int b + 1)"
      by (simp only: True [symmetric])
    moreover have "2 powi (1 - int b) \<le> x"
      by (simp only: True [symmetric] order_refl)
    ultimately show ?thesis
      unfolding fl by (rule conjI [rotated])
  next
    case neq: False
    have fl: "floor_log2 x = - int b"
      unfolding fl_if using neq by (rule if_not_P)
    have e2: "- int b + 1 = 1 - int b" by simp
    from xhi neq have "x < 2 powi (1 - int b)" by simp
    moreover from xlo have "2 powi (- int b) \<le> x" by simp
    ultimately show ?thesis
      unfolding fl e2 by (rule conjI [rotated])
  qed
qed

lemma power_int_2_less_cancel: "(2::rat) powi a < 2 powi b \<Longrightarrow> a < b"
proof (rule ccontr)
  assume less: "(2::rat) powi a < 2 powi b" and "\<not> a < b"
  then have "b \<le> a" by simp
  then have "(2::rat) powi b \<le> 2 powi a"
    by (intro power_int_increasing) simp_all
  with less show False by simp
qed

lemma floor_log2_eqI:
  assumes "2 powi k \<le> x" and "x < 2 powi (k + 1)"
  shows "floor_log2 x = k"
proof -
  have "(0::rat) < 2 powi k" by simp
  then have pos: "0 < x"
    using assms(1) by (rule less_le_trans)
  from floor_log2_bounds [OF pos]
  have b: "2 powi (floor_log2 x) \<le> x" "x < 2 powi (floor_log2 x + 1)" by simp_all
  have "(2::rat) powi k < 2 powi (floor_log2 x + 1)"
    using assms(1) b(2) by (rule le_less_trans)
  then have 1: "k < floor_log2 x + 1"
    by (rule power_int_2_less_cancel)
  have "(2::rat) powi (floor_log2 x) < 2 powi (k + 1)"
    using b(1) assms(2) by (rule le_less_trans)
  then have 2: "floor_log2 x < k + 1"
    by (rule power_int_2_less_cancel)
  from 1 2 show ?thesis by linarith
qed

lemma round_half_even_nearest:
  assumes "\<bar>x - of_int m\<bar> < 1 / 2"
  shows "round_half_even x = m"
proof (cases "of_int m \<le> x")
  case True
  with assms have "\<lfloor>x\<rfloor> = m" by (intro floor_unique) linarith+
  with assms True show ?thesis by (simp add: round_half_even_def Let_def)
next
  case False
  have m1: "rat_of_int (m - 1) = rat_of_int m - 1" by simp
  have "rat_of_int (m - 1) \<le> x" "x < rat_of_int (m - 1) + 1"
    unfolding m1 using assms False by linarith+
  then have f: "\<lfloor>x\<rfloor> = m - 1"
    by (rule floor_unique)
  have "1 / 2 < x - of_int (m - 1)" unfolding m1 using assms False by linarith
  then show ?thesis by (simp add: round_half_even_def Let_def f)
qed

lemma round_half_even_error: "\<bar>of_int (round_half_even x) - x\<bar> \<le> 1 / 2"
proof -
  have "of_int \<lfloor>x\<rfloor> \<le> x" "x < of_int \<lfloor>x\<rfloor> + 1" by linarith+
  then show ?thesis
    by (auto simp: round_half_even_def Let_def abs_le_iff) 
qed

lemma to_double_eqI:
  assumes "x \<noteq> 0" and "2 powi (e + 52) \<le> \<bar>x\<bar>" and "\<bar>x\<bar> < 2 powi (e + 53)"
    and "\<bar>\<bar>x\<bar> / 2 powi e - of_int m\<bar> < 1 / 2"
  shows "to_double x = sgn x * (of_int m * 2 powi e)"
proof -
  have "e + 53 = e + 52 + 1" by simp
  with assms(3) have "\<bar>x\<bar> < 2 powi (e + 52 + 1)" by simp
  with assms(2) have "floor_log2 \<bar>x\<bar> = e + 52" by (rule floor_log2_eqI)
  moreover have "round_half_even (\<bar>x\<bar> / 2 powi e) = m"
    using assms(4) by (rule round_half_even_nearest)
  ultimately show ?thesis
    using assms(1) by (simp add: to_double_def Let_def)
qed

lemma floor_log2_less:
  assumes "0 < x" and "x < 2 powi k"
  shows "floor_log2 x < k"
proof -
  from floor_log2_bounds [OF assms(1)] have "2 powi (floor_log2 x) \<le> x" by simp
  then have "(2::rat) powi (floor_log2 x) < 2 powi k"
    using assms(2) by (rule le_less_trans)
  then show ?thesis by (rule power_int_2_less_cancel)
qed

lemma to_double_error:
  assumes "x \<noteq> 0"
  shows "\<bar>to_double x - x\<bar> \<le> 2 powi (floor_log2 \<bar>x\<bar> - 53)"
proof -
  define e where "e = floor_log2 \<bar>x\<bar> - 52"
  define y where "y = \<bar>x\<bar> / 2 powi e"
  define m where "m = round_half_even y"
  have p: "(0::rat) < 2 powi e" by simp
  have td: "to_double x = sgn x * (of_int m * 2 powi e)"
    using assms by (simp add: to_double_def Let_def e_def m_def y_def)
  have x: "x = sgn x * (y * 2 powi e)"
    using p by (simp add: y_def sgn_mult_abs)
  have "to_double x - x = sgn x * ((of_int m - y) * 2 powi e)"
    unfolding td by (subst (2) x) (simp add: algebra_simps)
  then have "\<bar>to_double x - x\<bar> = \<bar>of_int m - y\<bar> * 2 powi e"
    using assms p by (simp add: abs_mult abs_sgn_eq)
  also have "\<dots> \<le> (1 / 2) * 2 powi e"
    using round_half_even_error [of y] p unfolding m_def
    by (intro mult_right_mono) simp_all
  also have "\<dots> = 2 powi (e - 1)"
    by (simp add: power_int_diff)
  finally show ?thesis by (simp add: e_def)
qed

lemma to_double_error_bound:
  assumes "\<bar>x\<bar> < 2 powi k"
  shows "\<bar>to_double x - x\<bar> \<le> 2 powi (k - 54)"
proof (cases "x = 0")
  case True
  then show ?thesis by (simp add: to_double_def)
next
  case False
  then have "0 < \<bar>x\<bar>" by simp
  from floor_log2_less [OF this assms] have "floor_log2 \<bar>x\<bar> - 53 \<le> k - 54" by simp
  then have "(2::rat) powi (floor_log2 \<bar>x\<bar> - 53) \<le> 2 powi (k - 54)"
    by (intro power_int_increasing) simp_all
  with to_double_error [OF False] show ?thesis by linarith
qed

lemma grid_coarser:
  assumes "J \<le> j"
  shows "of_int t * (10::rat) powi j = of_int (t * 10 ^ nat (j - J)) * 10 powi J"
proof -
  have "j = J + int (nat (j - J))" using assms by simp
  then have "(10::rat) powi j = 10 powi (J + int (nat (j - J)))" by simp
  also have "\<dots> = 10 powi J * 10 powi int (nat (j - J))"
    by (rule power_int_add) simp
  also have "\<dots> = 10 powi J * 10 ^ nat (j - J)"
    by (simp only: power_int_of_nat)
  finally show ?thesis by simp
qed

lemma shortest_from_grid:
  assumes d: "to_double (of_int D * 10 powi J) = x"
    and uniq: "\<And>C. to_double (of_int C * 10 powi J) = x \<Longrightarrow> C = D"
    and near: "D = \<lfloor>x / 10 powi J\<rfloor> \<or> D = \<lfloor>x / 10 powi J\<rfloor> + 1"
    and "J \<le> j" and "nat (j - J) < fuel"
  shows "shortest_from x j fuel = of_int D * 10 powi J"
  using assms(4,5)
proof (induction fuel arbitrary: j)
  case 0
  then show ?case by simp
next
  case (Suc fuel)
  define s where "s = \<lfloor>x / 10 powi j\<rfloor>"
  define lo where "lo = rat_of_int s * 10 powi j"
  define hi where "hi = rat_of_int (s + 1) * 10 powi j"
  have p: "(0::rat) < 10 powi j" by simp
  have ne: "lo \<noteq> hi"
    using p by (simp add: lo_def hi_def algebra_simps)
  have match: "rat_of_int t * 10 powi j = rat_of_int D * 10 powi J"
    if "to_double (of_int t * 10 powi j) = x" for t
  proof -
    have g: "of_int t * (10::rat) powi j = of_int (t * 10 ^ nat (j - J)) * 10 powi J"
      using Suc.prems(1) by (rule grid_coarser)
    from that have "t * 10 ^ nat (j - J) = D"
      unfolding g by (rule uniq)
    with g show ?thesis by simp
  qed
  have mlo: "lo = of_int D * 10 powi J" if "to_double lo = x"
    using that unfolding lo_def by (rule match)
  have mhi: "hi = of_int D * 10 powi J" if "to_double hi = x"
    using that unfolding hi_def by (rule match)
  have unf: "shortest_from x j (Suc fuel) =
     (if to_double lo = x \<and> to_double hi = x
         then (if x - lo < hi - x then lo else if hi - x < x - lo then hi
               else if even s then lo else hi)
         else if to_double lo = x then lo
         else if to_double hi = x then hi
         else shortest_from x (j - 1) fuel)"
    by (simp add: Let_def s_def lo_def hi_def)
  show ?case
  proof (cases "to_double lo = x")
    case True
    with mhi mlo ne have "to_double hi \<noteq> x" by auto
    with True mlo show ?thesis unfolding unf by simp
  next
    case nlo: False
    show ?thesis
    proof (cases "to_double hi = x")
      case True
      with nlo mhi show ?thesis unfolding unf by simp
    next
      case nhi: False
      have "j \<noteq> J"
      proof
        assume "j = J"
        with near have "of_int D * 10 powi J = lo \<or> of_int D * 10 powi J = hi"
          by (auto simp: lo_def hi_def s_def)
        with d nlo nhi show False by auto
      qed
      with Suc.prems have "J \<le> j - 1" "nat (j - 1 - J) < fuel" by linarith+
      from Suc.IH [OF this] nlo nhi show ?thesis unfolding unf by simp
    qed
  qed
qed

lemma shortest_decimal_grid:
  assumes "0 < x"
    and d: "to_double (of_int D * 10 powi J) = x"
    and uniq: "\<And>C. to_double (of_int C * 10 powi J) = x \<Longrightarrow> C = D"
    and near: "D = \<lfloor>x / 10 powi J\<rfloor> \<or> D = \<lfloor>x / 10 powi J\<rfloor> + 1"
    and "J \<le> 0" and "min 0 (floor_log2 x - 52) \<le> J"
  shows "shortest_decimal x = of_int D * 10 powi J"
proof -
  define top where "top = max 0 (floor_log2 x + 1)"
  define bottom where "bottom = min 0 (floor_log2 x - 52)"
  have 1: "J \<le> top" using assms(5) by (simp add: top_def)
  have 2: "nat (top - J) < Suc (nat (top - bottom))"
    using assms(6) by (simp add: bottom_def)
  have "shortest_from x top (Suc (nat (top - bottom))) = of_int D * 10 powi J"
    using d uniq near 1 2 by (rule shortest_from_grid)
  then show ?thesis
    using assms(1) by (simp add: shortest_decimal_def Let_def top_def bottom_def)
qed

lemma shortest_decimal_minus: "shortest_decimal (- x) = - shortest_decimal x"
  by (simp add: shortest_decimal_def Let_def)

lemma to_double_minus: "to_double (- x) = - to_double x"
  by (simp add: to_double_def Let_def)

lemma to_double_rel_error: "\<bar>to_double x - x\<bar> \<le> \<bar>x\<bar> / 2 ^ 53"
proof (cases "x = 0")
  case True
  then show ?thesis by (simp add: to_double_def)
next
  case False
  then have pos: "0 < \<bar>x\<bar>" by simp
  have "(2::rat) powi (floor_log2 \<bar>x\<bar> - 53) = 2 powi (floor_log2 \<bar>x\<bar>) / 2 ^ 53"
    by (simp add: power_int_diff)
  also have "\<dots> \<le> \<bar>x\<bar> / 2 ^ 53"
    using floor_log2_bounds [OF pos] by (simp add: divide_right_mono)
  finally show ?thesis
    using to_double_error [OF False] by linarith
qed

lemma to_double_pos:
  assumes "0 < x"
  shows "0 < to_double x"
proof -
  have "\<bar>to_double x - x\<bar> \<le> x / 9007199254740992"
    using to_double_rel_error [of x] assms by simp
  with assms show ?thesis by linarith
qed



lemma to_double_neg: "x < 0 \<Longrightarrow> to_double x < 0"
  using to_double_pos [of "- x"] by (simp add: to_double_minus)

lemma to_double_zero [simp]: "to_double 0 = 0"
  by (simp add: to_double_def)

lemma to_double_pos_iff: "0 < to_double x \<longleftrightarrow> 0 < x"
proof (cases "0 < x")
  case True
  then show ?thesis by (simp add: to_double_pos)
next
  case False
  then have "x = 0 \<or> x < 0" by linarith
  then have "to_double x \<le> 0"
    using to_double_neg [of x] by auto
  with False show ?thesis by simp
qed

lemma shortest_decimal_zero [simp]: "shortest_decimal 0 = 0"
  by (simp add: shortest_decimal_def)


lemma shortest_decimal_cents:
  assumes "\<bar>N\<bar> < 10 ^ 15"
  shows "shortest_decimal (to_double (of_int N / 100)) = of_int N / 100"
proof -
  have pos: "shortest_decimal (to_double (rat_of_int K / 100)) = of_int K / 100"
    if K: "0 < K" "K < 10 ^ 15" for K :: int
  proof -
    define d where "d = rat_of_int K / 100"
    define x where "x = to_double d"
    have "rat_of_int K < rat_of_int (10 ^ 15)" using K(2) by (simp only: of_int_less_iff)
    then have dlt: "d < 10000000000000" by (simp add: d_def)
    have dpos: "0 < d" using K(1) by (simp add: d_def)
    have xpos: "0 < x" unfolding x_def using dpos by (rule to_double_pos)
    have ed: "\<bar>x - d\<bar> \<le> d / 9007199254740992"
      using to_double_rel_error [of d] dpos by (simp add: x_def)
    have grid: "rat_of_int C * 10 powi (- 2) = of_int C / 100" for C
      by (simp add: power_int_minus)
    have dd: "to_double (rat_of_int K * 10 powi (- 2)) = x"
      by (simp add: grid x_def d_def)
    have uniq: "C = K" if t: "to_double (rat_of_int C * 10 powi (- 2)) = x" for C
    proof (rule ccontr)
      assume ne: "C \<noteq> K"
      define c where "c = rat_of_int C / 100"
      from t have tc: "to_double c = x" by (simp add: grid c_def)
      have cpos: "0 < c"
        using tc xpos to_double_pos_iff [of c] by simp
      have ec: "\<bar>x - c\<bar> \<le> c / 9007199254740992"
        using to_double_rel_error [of c] cpos by (simp add: tc)
      from ne have "C + 1 \<le> K \<or> K + 1 \<le> C" by linarith
      then have "rat_of_int (C + 1) \<le> rat_of_int K \<or> rat_of_int (K + 1) \<le> rat_of_int C"
        by (simp only: of_int_le_iff)
      then have "c + 1 / 100 \<le> d \<or> d + 1 / 100 \<le> c"
        by (auto simp: c_def d_def)
      with ec ed dlt dpos cpos show False by linarith
    qed
    have near: "K = \<lfloor>x / 10 powi (- 2)\<rfloor> \<or> K = \<lfloor>x / 10 powi (- 2)\<rfloor> + 1"
    proof -
      have e: "x / 10 powi (- 2) = x * 100" by (simp add: power_int_minus)
      have k: "rat_of_int K = d * 100" by (simp add: d_def)
      show ?thesis
      proof (cases "rat_of_int K \<le> x * 100")
        case True
        have "\<lfloor>x * 100\<rfloor> = K"
          by (rule floor_unique) (use True ed dlt dpos k in linarith)+
        then show ?thesis unfolding e by simp
      next
        case False
        have k1: "rat_of_int (K - 1) = d * 100 - 1" by (simp add: d_def)
        have "\<lfloor>x * 100\<rfloor> = K - 1"
          by (rule floor_unique) (use False ed dlt dpos k k1 in linarith)+
        then show ?thesis unfolding e by simp
      qed
    qed
    have "x < 2251799813685248"
      using ed dlt dpos by linarith
    then have "x < 2 powi 51" by simp
    with xpos have "floor_log2 x < 51" by (rule floor_log2_less)
    then have low: "min 0 (floor_log2 x - 52) \<le> - 2" by simp
    have j: "(- 2 :: int) \<le> 0" by simp
    have "shortest_decimal x = rat_of_int K * 10 powi (- 2)"
      using xpos dd uniq near j low by (rule shortest_decimal_grid)
    then show ?thesis by (simp add: grid x_def d_def)
  qed
  consider "0 < N" | "N = 0" | "N < 0" by linarith
  then show ?thesis
  proof cases
    case 1
    with assms show ?thesis by (intro pos) simp_all
  next
    case 2
    then show ?thesis by simp
  next
    case 3
    with assms have "shortest_decimal (to_double (rat_of_int (- N) / 100)) = of_int (- N) / 100"
      by (intro pos) simp_all
    then show ?thesis by (simp add: shortest_decimal_minus to_double_minus)
  qed
qed

lemma round_half_even_range:
  assumes "of_int a \<le> x" and "x \<le> of_int b"
  shows "a \<le> round_half_even x \<and> round_half_even x \<le> b"
proof -
  have e: "\<bar>rat_of_int (round_half_even x) - x\<bar> \<le> 1 / 2"
    by (rule round_half_even_error)
  have "rat_of_int a - 1 / 2 \<le> rat_of_int (round_half_even x)"
    using e assms(1) by linarith
  then have "rat_of_int a < rat_of_int (round_half_even x) + 1" by linarith
  then have "rat_of_int a < rat_of_int (round_half_even x + 1)" by simp
  then have 1: "a < round_half_even x + 1" by (simp only: of_int_less_iff)
  have "rat_of_int (round_half_even x) \<le> rat_of_int b + 1 / 2"
    using e assms(2) by linarith
  then have "rat_of_int (round_half_even x) < rat_of_int (b + 1)" by simp
  then have 2: "round_half_even x < b + 1" by (simp only: of_int_less_iff)
  from 1 2 show ?thesis by simp
qed

lemma to_double_shape:
  assumes "x \<noteq> 0"
  shows "\<exists>m. to_double x = sgn x * (of_int m * 2 powi (floor_log2 \<bar>x\<bar> - 52)) \<and>
     2 ^ 52 \<le> m \<and> m \<le> 2 ^ 53"
proof -
  define e where "e = floor_log2 \<bar>x\<bar> - 52"
  define y where "y = \<bar>x\<bar> / 2 powi e"
  have pos: "0 < \<bar>x\<bar>" using assms by simp
  have p: "(0::rat) < 2 powi e" by simp
  have e52: "e + 52 = floor_log2 \<bar>x\<bar>" and e53: "e + 53 = floor_log2 \<bar>x\<bar> + 1"
    by (simp_all add: e_def)
  from floor_log2_bounds [OF pos]
  have b: "2 powi (e + 52) \<le> \<bar>x\<bar>" "\<bar>x\<bar> < 2 powi (e + 53)"
    unfolding e52 e53 by simp_all
  have s1: "(2::rat) powi (e + 52) = 2 powi e * 2 ^ 52"
    by (simp add: power_int_add)
  have s2: "(2::rat) powi (e + 53) = 2 powi e * 2 ^ 53"
    by (simp add: power_int_add)
  have "2 ^ 52 \<le> y"
    using b(1) p unfolding s1 y_def by (simp add: pos_le_divide_eq mult.commute)
  then have lo: "rat_of_int (2 ^ 52) \<le> y" by simp
  have "y < 2 ^ 53"
    using b(2) p unfolding s2 y_def by (simp add: pos_divide_less_eq mult.commute)
  then have hi: "y \<le> rat_of_int (2 ^ 53)" by simp
  from round_half_even_range [OF lo hi]
  have "2 ^ 52 \<le> round_half_even y" "round_half_even y \<le> 2 ^ 53" by simp_all
  moreover have "to_double x = sgn x * (of_int (round_half_even y) * 2 powi e)"
    using assms by (simp add: to_double_def Let_def e_def y_def)
  ultimately show ?thesis unfolding e_def by blast
qed

lemma to_double_idem: "to_double (to_double x) = to_double x"
proof (cases "x = 0")
  case True
  then show ?thesis by simp
next
  case False
  define e where "e = floor_log2 \<bar>x\<bar> - 52"
  from to_double_shape [OF False] obtain m where
    t: "to_double x = sgn x * (rat_of_int m * 2 powi e)" and m: "2 ^ 52 \<le> m" "m \<le> 2 ^ 53"
    unfolding e_def by blast
  define t where "t = to_double x"
  have p: "(0::rat) < 2 powi e" by simp
  have "rat_of_int (2 ^ 52) \<le> rat_of_int m" using m(1) by (simp only: of_int_le_iff)
  then have mr: "2 ^ 52 \<le> rat_of_int m" by simp
  from m(1) have "0 < m" by simp
  then have mpos: "0 < rat_of_int m" by simp
  have abs_t: "\<bar>t\<bar> = rat_of_int m * 2 powi e"
    using False mpos p by (simp add: t_def t abs_mult abs_sgn_eq)
  have sgn_t: "sgn t = sgn x"
    using False mpos p by (simp add: t_def t sgn_mult)
  have t0: "t \<noteq> 0"
    using abs_t mpos p by (metis abs_zero mult_pos_pos less_irrefl)
  have "to_double t = t"
  proof (cases "m = 2 ^ 53")
    case True
    have a: "\<bar>t\<bar> = 2 powi (e + 1 + 52)"
      unfolding abs_t True by (simp add: power_int_add)
    have "to_double t = sgn t * (of_int (2 ^ 52) * 2 powi (e + 1))"
    proof (rule to_double_eqI [OF t0])
      show "2 powi (e + 1 + 52) \<le> \<bar>t\<bar>" unfolding a by simp
      show "\<bar>t\<bar> < 2 powi (e + 1 + 53)"
        unfolding a by (rule power_int_strict_increasing) simp_all
      have "\<bar>t\<bar> / 2 powi (e + 1) = 2 ^ 52"
        unfolding a by (simp add: power_int_add)
      then show "\<bar>\<bar>t\<bar> / 2 powi (e + 1) - rat_of_int (2 ^ 52)\<bar> < 1 / 2" by simp
    qed
    also have "\<dots> = sgn x * (rat_of_int m * 2 powi e)"
      unfolding sgn_t True by (simp add: power_int_add)
    finally show ?thesis by (simp add: t_def t)
  next
    case False
    with m(2) have "m < 2 ^ 53" by simp
    then have "rat_of_int m < rat_of_int (2 ^ 53)" by (simp only: of_int_less_iff)
    then have mlt: "rat_of_int m < 2 ^ 53" by simp
    have "to_double t = sgn t * (of_int m * 2 powi e)"
    proof (rule to_double_eqI [OF t0])
      show "2 powi (e + 52) \<le> \<bar>t\<bar>"
        unfolding abs_t using mr p by (simp add: power_int_add mult.commute)
      show "\<bar>t\<bar> < 2 powi (e + 53)"
        unfolding abs_t using mlt p by (simp add: power_int_add mult.commute)
      have "\<bar>t\<bar> / 2 powi e = rat_of_int m"
        unfolding abs_t by simp
      then show "\<bar>\<bar>t\<bar> / 2 powi e - rat_of_int m\<bar> < 1 / 2" by simp
    qed
    then have "to_double t = sgn x * (rat_of_int m * 2 powi e)"
      by (simp only: sgn_t)
    also have "\<dots> = to_double x" by (simp only: t)
    finally show ?thesis by (simp only: t_def)
  qed
  then show ?thesis by (simp add: t_def)
qed

lemma double_on_grid:
  assumes "to_double x = x" and "0 < x"
  shows "\<exists>X. x = rat_of_int X * 10 powi (min 0 (floor_log2 x - 52))"
proof -
  define e where "e = floor_log2 x - 52"
  have x0: "x \<noteq> 0" using assms(2) by simp
  from to_double_shape [OF x0] assms obtain m where
    x: "x = rat_of_int m * 2 powi e"
    by (auto simp: e_def)
  show ?thesis
  proof (cases "0 \<le> e")
    case True
    then have "(2::rat) powi e = 2 ^ nat e" by (simp add: power_int_def)
    then have "x = rat_of_int (m * 2 ^ nat e) * 10 powi 0"
      by (simp add: x)
    moreover have "min 0 e = 0" using True by simp
    ultimately show ?thesis unfolding e_def [symmetric] by metis
  next
    case False
    define n where "n = nat (- e)"
    have e: "e = - int n" using False by (simp add: n_def)
    have "(10::rat) powi e = (2 * 5) powi e" by simp
    also have "\<dots> = 2 powi e * 5 powi e" by (rule power_int_mult_distrib)
    finally have ten: "(10::rat) powi e = 2 powi e * 5 powi e" .
    have five: "(5::rat) ^ n * 5 powi e = 1"
      unfolding e by (simp add: power_int_minus)
    have "rat_of_int (m * 5 ^ n) * 10 powi e = rat_of_int m * 2 powi e * (5 ^ n * 5 powi e)"
      unfolding ten by simp
    also have "\<dots> = rat_of_int m * 2 powi e"
      unfolding five by simp
    finally have g: "rat_of_int (m * 5 ^ n) * 10 powi e = rat_of_int m * 2 powi e" .
    have "x = rat_of_int (m * 5 ^ n) * 10 powi e"
      by (simp only: g) (rule x)
    moreover have "min 0 e = e" using False by simp
    ultimately show ?thesis unfolding e_def [symmetric] by metis
  qed
qed

lemma shortest_from_reads_back:
  assumes "to_double x = x" and "x = rat_of_int X * 10 powi J"
    and "J \<le> j" and "nat (j - J) < fuel"
  shows "to_double (shortest_from x j fuel) = x"
  using assms(3,4)
proof (induction fuel arbitrary: j)
  case 0
  then show ?case by simp
next
  case (Suc fuel)
  define s where "s = \<lfloor>x / 10 powi j\<rfloor>"
  define lo where "lo = rat_of_int s * 10 powi j"
  define hi where "hi = rat_of_int (s + 1) * 10 powi j"
  have unf: "shortest_from x j (Suc fuel) =
     (if to_double lo = x \<and> to_double hi = x
         then (if x - lo < hi - x then lo else if hi - x < x - lo then hi
               else if even s then lo else hi)
         else if to_double lo = x then lo
         else if to_double hi = x then hi
         else shortest_from x (j - 1) fuel)"
    by (simp add: Let_def s_def lo_def hi_def)
  show ?case
  proof (cases "to_double lo = x \<or> to_double hi = x")
    case True
    then show ?thesis unfolding unf by auto
  next
    case False
    have "j \<noteq> J"
    proof
      assume "j = J"
      have p: "(0::rat) < 10 powi J" by simp
      have "x / 10 powi J = rat_of_int X"
        using p by (simp add: assms(2))
      then have "lo = x"
        by (simp add: lo_def s_def \<open>j = J\<close> assms(2))
      with assms(1) False show False by simp
    qed
    with Suc.prems have "J \<le> j - 1" "nat (j - 1 - J) < fuel" by linarith+
    from Suc.IH [OF this] False show ?thesis unfolding unf by simp
  qed
qed

lemma shortest_decimal_reads_back:
  assumes "to_double x = x"
  shows "to_double (shortest_decimal x) = x"
proof -
  have pos: "to_double (shortest_decimal y) = y" if y: "to_double y = y" "0 < y" for y
  proof -
    define top where "top = max 0 (floor_log2 y + 1)"
    define bottom where "bottom = min 0 (floor_log2 y - 52)"
    from double_on_grid [OF y] obtain Y where g: "y = rat_of_int Y * 10 powi bottom"
      unfolding bottom_def by blast
    have 1: "bottom \<le> top" by (simp add: bottom_def top_def)
    have 2: "nat (top - bottom) < Suc (nat (top - bottom))" by simp
    from shortest_from_reads_back [OF y(1) g 1 2]
    show ?thesis
      using y(2) by (simp add: shortest_decimal_def Let_def top_def bottom_def
          del: shortest_from.simps)
  qed
  consider "0 < x" | "x = 0" | "x < 0" by linarith
  then show ?thesis
  proof cases
    case 1
    with assms show ?thesis by (intro pos)
  next
    case 2
    then show ?thesis by simp
  next
    case 3
    have "to_double (- x) = - x" using assms by (simp add: to_double_minus)
    from pos [OF this] 3 show ?thesis
      by (simp add: shortest_decimal_minus to_double_minus)
  qed
qed

lemma distance_miles_sent_reads_back:
  "to_double (distance_miles_sent distance) = distanceMiles (to_double distance)"
  unfolding distance_miles_sent_def
  by (rule shortest_decimal_reads_back) (simp add: distanceMiles_def js_divide_def to_double_idem)

lemma distance_miles_sent_cents:
  assumes "\<bar>scaled_miles (to_double d)\<bar> < 10 ^ 15"
  shows "distance_miles_sent d = of_int (scaled_miles (to_double d)) / 100"
  using shortest_decimal_cents [OF assms]
  by (simp add: distance_miles_sent_def distanceMiles_def js_divide_def)

lemma to_double_factor:
  "to_double (621371 / 1000000000) = 5731135905912489 / 9223372036854775808"
proof -
  have "to_double (621371 / 1000000000) =
      sgn (621371 / 1000000000 :: rat) * (of_int 5731135905912489 * 2 powi (- 63))"
    by (rule to_double_eqI) simp_all
  then show ?thesis by simp
qed

lemma scaled_miles_10000: "scaled_miles (10000) = 621"
proof -
  have "to_double (10000 * (5731135905912489 / 9223372036854775808)) = sgn (10000 * (5731135905912489 / 9223372036854775808) :: rat) * (of_int 6996015510147081 * 2 powi (-50))"
    by (rule to_double_eqI) simp_all
  then have p: "to_double (10000 * (5731135905912489 / 9223372036854775808)) = 6996015510147081 / 1125899906842624"
    by simp
  have "to_double (6996015510147081 / 1125899906842624 * 100) = sgn (6996015510147081 / 1125899906842624 * 100 :: rat) * (of_int 5465637117302407 * 2 powi (-43))"
    by (rule to_double_eqI) simp_all
  then have q: "to_double (6996015510147081 / 1125899906842624 * 100) = 5465637117302407 / 8796093022208"
    by simp
  have "math_round (5465637117302407 / 8796093022208) = 621"
    unfolding math_round_def by (rule floor_unique) simp_all
  then show ?thesis
    unfolding scaled_miles_def js_times_def to_double_factor p q .
qed

lemma to_double_1609_34: "to_double (80467 / 50) = 7077952172180111 / 4398046511104"
proof -
  have "to_double (80467 / 50) = sgn (80467 / 50 :: rat) * (of_int 7077952172180111 * 2 powi (-42))"
    by (rule to_double_eqI) simp_all
  then show ?thesis
    by simp
qed

lemma scaled_miles_1609_34: "scaled_miles (7077952172180111 / 4398046511104) = 100"
proof -
  have "to_double (7077952172180111 / 4398046511104 * (5731135905912489 / 9223372036854775808)) = sgn (7077952172180111 / 4398046511104 * (5731135905912489 / 9223372036854775808) :: rat) * (of_int 9007174080880083 * 2 powi (-53))"
    by (rule to_double_eqI) simp_all
  then have p: "to_double (7077952172180111 / 4398046511104 * (5731135905912489 / 9223372036854775808)) = 9007174080880083 / 9007199254740992"
    by simp
  have "to_double (9007174080880083 / 9007199254740992 * 100) = sgn (9007174080880083 / 9007199254740992 * 100 :: rat) * (of_int 7036854750687565 * 2 powi (-46))"
    by (rule to_double_eqI) simp_all
  then have q: "to_double (9007174080880083 / 9007199254740992 * 100) = 7036854750687565 / 70368744177664"
    by simp
  have "math_round (7036854750687565 / 70368744177664) = 100"
    unfolding math_round_def by (rule floor_unique) simp_all
  then show ?thesis
    unfolding scaled_miles_def js_times_def to_double_factor p q .
qed

lemma scaled_miles_minus_5000000: "scaled_miles (- 5000000) = - 310685"
proof -
  have "to_double (- 5000000 * (5731135905912489 / 9223372036854775808)) = sgn (- 5000000 * (5731135905912489 / 9223372036854775808) :: rat) * (of_int 6832046396628009 * 2 powi (-41))"
    by (rule to_double_eqI) simp_all
  then have p: "to_double (- 5000000 * (5731135905912489 / 9223372036854775808)) = - (6832046396628009 / 2199023255552)"
    by simp
  have "to_double (- (6832046396628009 / 2199023255552) * 100) = sgn (- (6832046396628009 / 2199023255552) * 100 :: rat) * (of_int 5337536247365632 * 2 powi (-34))"
    by (rule to_double_eqI) simp_all
  then have q: "to_double (- (6832046396628009 / 2199023255552) * 100) = - (621371 / 2)"
    by simp
  have "math_round (- (621371 / 2)) = - 310685"
    unfolding math_round_def by (rule floor_unique) simp_all
  then show ?thesis
    unfolding scaled_miles_def js_times_def to_double_factor p q .
qed

lemma to_double_40_23: "to_double (251460077795713 / 6250000000000) = 5662377563296645 / 140737488355328"
proof -
  have "to_double (251460077795713 / 6250000000000) = sgn (251460077795713 / 6250000000000 :: rat) * (of_int 5662377563296645 * 2 powi (-47))"
    by (rule to_double_eqI) simp_all
  then show ?thesis
    by simp
qed

lemma scaled_miles_40_23: "scaled_miles (5662377563296645 / 140737488355328) = 3"
proof -
  have "to_double (5662377563296645 / 140737488355328 * (5731135905912489 / 9223372036854775808)) = sgn (5662377563296645 / 140737488355328 * (5731135905912489 / 9223372036854775808) :: rat) * (of_int 7205759403792793 * 2 powi (-58))"
    by (rule to_double_eqI) simp_all
  then have p: "to_double (5662377563296645 / 140737488355328 * (5731135905912489 / 9223372036854775808)) = 7205759403792793 / 288230376151711744"
    by simp
  have "to_double (7205759403792793 / 288230376151711744 * 100) = sgn (7205759403792793 / 288230376151711744 * 100 :: rat) * (of_int 5629499534213120 * 2 powi (-51))"
    by (rule to_double_eqI) simp_all
  then have q: "to_double (7205759403792793 / 288230376151711744 * 100) = 5 / 2"
    by simp
  have "math_round (5 / 2) = 3"
    unfolding math_round_def by (rule floor_unique) simp_all
  then show ?thesis
    unfolding scaled_miles_def js_times_def to_double_factor p q .
qed

lemma floor_half_error: "\<bar>rat_of_int \<lfloor>y + 1 / 2\<rfloor> - y\<bar> \<le> 1 / 2"
  by linarith

lemma floor_one_half: "\<lfloor>1 / 2 :: rat\<rfloor> = 0"
  by (rule floor_unique) simp_all

lemma sql_round_2_sgn:
  "sql_round x 2 = sgn x * (of_int \<lfloor>\<bar>x\<bar> * 100 + 1 / 2\<rfloor> / 100)"
  by (cases "0 \<le> x") (auto simp: sql_round_def sgn_if floor_one_half)

lemma sql_round_2_error: "\<bar>sql_round x 2 - x\<bar> \<le> 1 / 200"
proof (cases "0 \<le> x")
  case True
  define z where "z = rat_of_int \<lfloor>x * 100 + 1 / 2\<rfloor>"
  have "\<bar>z - x * 100\<bar> \<le> 1 / 2"
    unfolding z_def by (rule floor_half_error)
  then have "\<bar>z / 100 - x\<bar> \<le> 1 / 200" by linarith
  moreover have "sql_round x 2 = z / 100"
    using True by (simp add: sql_round_def z_def)
  ultimately show ?thesis by (simp only:)
next
  case False
  define z where "z = rat_of_int \<lfloor>- x * 100 + 1 / 2\<rfloor>"
  have "\<bar>z - (- x * 100)\<bar> \<le> 1 / 2"
    unfolding z_def by (rule floor_half_error)
  then have "\<bar>- (z / 100) - x\<bar> \<le> 1 / 200" by linarith
  moreover have "sql_round x 2 = - (z / 100)"
    using False by (simp add: sql_round_def z_def)
  ultimately show ?thesis by (simp only:)
qed

lemma meters_to_miles_10000: "meters_to_miles 10000 = 621 / 100"
proof -
  have "\<lfloor>(10000 :: rat) * (621371 / 1000000000) * 10\<^sup>2 + 1 / 2\<rfloor> = 621"
    by (rule floor_unique) simp_all
  then show ?thesis by (simp add: meters_to_miles_def sql_round_def)
qed

lemma meters_to_miles_1609_34: "meters_to_miles (160934 / 100) = 1"
proof -
  have "\<lfloor>(160934 / 100 :: rat) * (621371 / 1000000000) * 10\<^sup>2 + 1 / 2\<rfloor> = 100"
    by (rule floor_unique) simp_all
  then show ?thesis by (simp add: meters_to_miles_def sql_round_def)
qed

lemma meters_to_miles_minus_5000000: "meters_to_miles (- 5000000) = - (310686 / 100)"
proof -
  have "\<lfloor>- (- 5000000 * (621371 / 1000000000) :: rat) * 10\<^sup>2 + 1 / 2\<rfloor> = 310686"
    by (rule floor_unique) simp_all
  then show ?thesis by (simp add: meters_to_miles_def sql_round_def)
qed

lemma meters_to_miles_40_23:
  "meters_to_miles (4023361244731408 / 100000000000000) = 2 / 100"
proof -
  have "\<lfloor>(4023361244731408 / 100000000000000 :: rat) * (621371 / 1000000000) * 10\<^sup>2 + 1 / 2\<rfloor> = 2"
    by (rule floor_unique) simp_all
  then show ?thesis by (simp add: meters_to_miles_def sql_round_def)
qed

lemma to_double_10000: "to_double 10000 = 10000"
proof -
  have "to_double 10000 = sgn (10000 :: rat) * (of_int 5497558138880000 * 2 powi (- 39))"
    by (rule to_double_eqI) simp_all
  then show ?thesis by simp
qed

lemma to_double_minus_5000000: "to_double (- 5000000) = - 5000000"
proof -
  have "to_double (- 5000000) = sgn (- 5000000 :: rat) * (of_int 5368709120000000 * 2 powi (- 30))"
    by (rule to_double_eqI) simp_all
  then show ?thesis by simp
qed

lemma distance_miles_sent_examples:
  "distance_miles_sent 10000 = 621 / 100"
  "distance_miles_sent (160934 / 100) = 1"
  "distance_miles_sent (- 5000000) = - (310685 / 100)"
  "distance_miles_sent (4023361244731408 / 100000000000000) = 3 / 100"
proof -
  have a: "(160934 / 100 :: rat) = 80467 / 50"
    and b: "(4023361244731408 / 100000000000000 :: rat) = 251460077795713 / 6250000000000"
    by simp_all
  show "distance_miles_sent 10000 = 621 / 100"
    by (subst distance_miles_sent_cents) (simp_all add: to_double_10000 scaled_miles_10000)
  show "distance_miles_sent (160934 / 100) = 1"
    unfolding a
    by (subst distance_miles_sent_cents) (simp_all add: to_double_1609_34 scaled_miles_1609_34)
  show "distance_miles_sent (- 5000000) = - (310685 / 100)"
    by (subst distance_miles_sent_cents)
      (simp_all add: to_double_minus_5000000 scaled_miles_minus_5000000)
  show "distance_miles_sent (4023361244731408 / 100000000000000) = 3 / 100"
    unfolding b
    by (subst distance_miles_sent_cents) (simp_all add: to_double_40_23 scaled_miles_40_23)
qed

lemma scaled_product_close:
  assumes "0 \<le> d" and "d < 5000000"
  shows "\<bar>js_times (js_times (to_double d) (to_double (621371 / 1000000000))) 100 -
     d * (621371 / 1000000000) * 100\<bar> \<le> 1 / 10000000000"
proof -
  define D where "D = to_double d"
  define p where "p = to_double (D * (5731135905912489 / 9223372036854775808))"
  define q where "q = to_double (p * 100)"
  have "\<bar>d\<bar> < 2 powi 23" using assms by simp
  from to_double_error_bound [OF this] have eD: "\<bar>D - d\<bar> \<le> 1 / 2147483648"
    by (simp add: D_def)
  have "\<bar>D * (5731135905912489 / 9223372036854775808)\<bar> < 4096"
    using eD assms by linarith
  then have "\<bar>D * (5731135905912489 / 9223372036854775808)\<bar> < 2 powi 12"
    by simp
  from to_double_error_bound [OF this]
  have eP: "\<bar>p - D * (5731135905912489 / 9223372036854775808)\<bar> \<le> 1 / 4398046511104"
    by (simp add: p_def)
  have "\<bar>p * 100\<bar> < 524288"
    using eP eD assms by linarith
  then have "\<bar>p * 100\<bar> < 2 powi 19"
    by simp
  from to_double_error_bound [OF this]
  have eQ: "\<bar>q - p * 100\<bar> \<le> 1 / 34359738368"
    by (simp add: q_def)
  have "\<bar>q - d * (621371 / 1000000000) * 100\<bar> \<le> 1 / 10000000000"
    using eD eP eQ assms by linarith
  then show ?thesis
    by (simp add: js_times_def to_double_factor q_def p_def D_def)
qed

lemma importer_agrees_off_tie:
  assumes "0 \<le> d" and "d < 5000000"
    and "1 / 1000000000 \<le> frac (d * (621371 / 1000000000) * 100 + 1 / 2)"
    and "frac (d * (621371 / 1000000000) * 100 + 1 / 2) \<le> 1 - 1 / 1000000000"
  shows "distance_miles_sent d = meters_to_miles d"
proof -
  define u where "u = d * (621371 / 1000000000) * 100 + 1 / 2"
  define q where "q = js_times (js_times (to_double d) (to_double (621371 / 1000000000))) 100"
  have close: "\<bar>q - (u - 1 / 2)\<bar> \<le> 1 / 10000000000"
    using scaled_product_close [OF assms(1,2)] by (simp add: q_def u_def)
  have fr: "1 / 1000000000 \<le> u - of_int \<lfloor>u\<rfloor>" "u - of_int \<lfloor>u\<rfloor> \<le> 1 - 1 / 1000000000"
    using assms(3,4) by (simp_all add: frac_def u_def)
  have "of_int \<lfloor>u\<rfloor> \<le> q + 1 / 2" "q + 1 / 2 < of_int \<lfloor>u\<rfloor> + 1"
    using close fr by linarith+
  then have fl: "\<lfloor>q + 1 / 2\<rfloor> = \<lfloor>u\<rfloor>"
    by (rule floor_unique)
  then have scaled: "scaled_miles (to_double d) = \<lfloor>u\<rfloor>"
    by (simp add: scaled_miles_def math_round_def q_def)
  have "0 \<le> u" "u < 1000000"
    using assms(1,2) by (simp_all add: u_def)
  then have "0 \<le> \<lfloor>u\<rfloor>" "\<lfloor>u\<rfloor> < 1000000"
    by (simp_all add: floor_less_iff)
  then have "\<bar>scaled_miles (to_double d)\<bar> < 10 ^ 15"
    unfolding scaled by simp
  from distance_miles_sent_cents [OF this]
  have sent: "distance_miles_sent d = of_int \<lfloor>u\<rfloor> / 100"
    unfolding scaled .
  have "0 \<le> d * (621371 / 1000000000)" using assms(1) by simp
  then have "meters_to_miles d = of_int \<lfloor>u\<rfloor> / 100"
    by (simp add: meters_to_miles_def sql_round_def u_def)
  with sent show ?thesis by simp
qed

lemma one_decimal_not_tie:
  fixes n :: int
  assumes "0 \<le> n" and "n < 50000000"
  shows "\<not> 100000000 dvd n * 621371 + 50000000"
proof
  assume d: "100000000 dvd n * 621371 + 50000000"
  have "(50000000::int) dvd 100000000" by simp
  then have "50000000 dvd n * 621371 + 50000000"
    using d by (rule dvd_trans)
  then have "50000000 dvd n * 621371"
    by (simp add: dvd_add_left_iff)
  then obtain k where k: "n * 621371 = 50000000 * k" by (auto simp: dvd_def)
  have "n = 21612531 * (n * 621371) - 268588 * 50000000 * n" by simp
  also have "\<dots> = 50000000 * (21612531 * k - 268588 * n)"
    unfolding k by (simp add: algebra_simps)
  finally have "50000000 dvd n" by (rule dvdI)
  with assms have "n = 0"
    by (auto simp: dvd_def)
  with d show False by simp
qed

lemma importer_agrees_one_decimal:
  fixes n :: int
  assumes "0 \<le> n" and "n < 50000000"
  shows "distance_miles_sent (of_int n / 10) = meters_to_miles (of_int n / 10)"
proof -
  define N where "N = n * 621371 + 50000000"
  define r where "r = N mod 100000000"
  have u: "rat_of_int n / 10 * (621371 / 1000000000) * 100 + 1 / 2 = of_int N / of_int 100000000"
    by (simp add: N_def field_simps)
  have fl: "\<lfloor>rat_of_int N / of_int 100000000\<rfloor> = N div 100000000"
    by (rule floor_divide_of_int_eq)
  have "N = 100000000 * (N div 100000000) + r"
    by (simp add: r_def)
  then have "rat_of_int N = 100000000 * of_int (N div 100000000) + of_int r"
    by (metis of_int_add of_int_mult of_int_numeral)
  then have fr: "frac (rat_of_int N / of_int 100000000) = of_int r / 100000000"
    unfolding frac_def fl by (simp add: field_simps)
  have "r \<noteq> 0"
    using one_decimal_not_tie [OF assms] by (simp add: r_def N_def dvd_eq_mod_eq_0)
  moreover have "0 \<le> r" "r < 100000000"
    by (simp_all add: r_def)
  ultimately have "1 \<le> r" "r \<le> 99999999" by linarith+
  then have "1 \<le> rat_of_int r" "rat_of_int r \<le> 99999999"
    by (simp_all only: of_int_le_iff [symmetric, where 'a = rat] of_int_1 of_int_numeral)
  then have m: "1 / 1000000000 \<le> frac (rat_of_int N / of_int 100000000)"
    "frac (rat_of_int N / of_int 100000000) \<le> 1 - 1 / 1000000000"
    unfolding fr by (simp_all add: field_simps)
  have d: "0 \<le> rat_of_int n / 10" "rat_of_int n / 10 < 5000000"
    using assms by simp_all
  show ?thesis
    by (rule importer_agrees_off_tie [OF d]) (simp_all only: u m)
qed

text \<open>
  The claim C9 as stated fails in its last part: the importer does not reproduce the
  rounding of \<open>meters_to_miles\<close> for every distance. At \<open>-5000000\<close> meters the exact
  product is the tie \<open>-3106.855\<close>, which the database rounds away from zero and
  \<^verbatim>\<open>Math.round\<close> upwards; at \<open>40.23361244731408\<close> meters the exact product is just below
  the tie \<open>0.025\<close> and the binary64 product is the tie itself.
\<close>

theorem distance_conversion_counterexample:
  "distance_miles_sent (- 5000000) = - (310685 / 100) \<and>
   meters_to_miles (- 5000000) = - (310686 / 100) \<and>
   distance_miles_sent (4023361244731408 / 100000000000000) = 3 / 100 \<and>
   meters_to_miles (4023361244731408 / 100000000000000) = 2 / 100"
  using distance_miles_sent_examples(3,4) meters_to_miles_minus_5000000 meters_to_miles_40_23
  by (intro conjI)

text \<open>
  C9, as amended. For every distance, \<open>meters_to_miles\<close> is the product with
  \<open>0.000621371\<close> rounded to two decimal places, a tie away from zero, hence within
  \<open>0.005\<close> of the product; \<open>1609.34\<close> meters give \<open>1.00\<close> and \<open>10000\<close> meters \<open>6.21\<close>, and
  the importer sends the same two values. The importer sends exactly the value of
  \<open>meters_to_miles\<close> for every distance from 0 to below 5000000 meters written with one
  decimal digit at most, and for every distance in that range whose exact product,
  times 100, is not within \<open>0.000000001\<close> of a rounding tie.
\<close>

theorem distance_conversion:
  "meters_to_miles m =
     sgn (m * (621371 / 1000000000)) *
       (of_int \<lfloor>\<bar>m * (621371 / 1000000000)\<bar> * 100 + 1 / 2\<rfloor> / 100) \<and>
   \<bar>meters_to_miles m - m * (621371 / 1000000000)\<bar> \<le> 1 / 200 \<and>
   meters_to_miles (160934 / 100) = 1 \<and>
   meters_to_miles 10000 = 621 / 100 \<and>
   distance_miles_sent (160934 / 100) = 1 \<and>
   distance_miles_sent 10000 = 621 / 100 \<and>
   (0 \<le> n \<longrightarrow> n < 50000000 \<longrightarrow>
      distance_miles_sent (of_int n / 10) = meters_to_miles (of_int n / 10)) \<and>
   (0 \<le> m \<longrightarrow> m < 5000000 \<longrightarrow>
    1 / 1000000000 \<le> frac (m * (621371 / 1000000000) * 100 + 1 / 2) \<longrightarrow>
    frac (m * (621371 / 1000000000) * 100 + 1 / 2) \<le> 1 - 1 / 1000000000 \<longrightarrow>
      distance_miles_sent m = meters_to_miles m)"
  using sql_round_2_sgn [of "m * (621371 / 1000000000)"]
    sql_round_2_error [of "m * (621371 / 1000000000)"]
    meters_to_miles_1609_34 meters_to_miles_10000 distance_miles_sent_examples(1,2)
    importer_agrees_one_decimal [of n] importer_agrees_off_tie [of m]
  unfolding meters_to_miles_def [of m]
  by (intro conjI impI)

theorem distance_conversion_witness:
  "(0 :: int) \<le> 80467 \<and> (80467 :: int) < 50000000 \<and>
   distance_miles_sent (of_int 80467 / 10) = meters_to_miles (of_int 80467 / 10) \<and>
   (0 :: rat) \<le> 20000 \<and> (20000 :: rat) < 5000000 \<and>
   frac (20000 * (621371 / 1000000000) * 100 + 1 / 2 :: rat) = 121 / 500 \<and>
   distance_miles_sent 20000 = meters_to_miles 20000 \<and>
   meters_to_miles 20000 = 1243 / 100"
proof -
  have n: "(0 :: int) \<le> 80467" "(80467 :: int) < 50000000" by simp_all
  have one: "distance_miles_sent (of_int 80467 / 10) = meters_to_miles (of_int 80467 / 10)"
    using distance_conversion [of _ 80467] n by blast
  have m: "(0 :: rat) \<le> 20000" "(20000 :: rat) < 5000000" by simp_all
  have "\<lfloor>621621 / 500 :: rat\<rfloor> = 1243"
    by (rule floor_unique) simp_all
  then have fr: "frac (20000 * (621371 / 1000000000) * 100 + 1 / 2 :: rat) = 121 / 500"
    by (simp add: frac_def)
  have margin: "1 / 1000000000 \<le> frac (20000 * (621371 / 1000000000) * 100 + 1 / 2 :: rat)"
    "frac (20000 * (621371 / 1000000000) * 100 + 1 / 2 :: rat) \<le> 1 - 1 / 1000000000"
    unfolding fr by simp_all
  have two: "distance_miles_sent 20000 = meters_to_miles 20000"
    using distance_conversion [of 20000] m margin by blast
  have "\<lfloor>(20000 :: rat) * (621371 / 1000000000) * 10\<^sup>2 + 1 / 2\<rfloor> = 1243"
    by (rule floor_unique) simp_all
  then have v: "meters_to_miles 20000 = 1243 / 100"
    by (simp add: meters_to_miles_def sql_round_def)
  from n one m fr two v show ?thesis by blast
qed

section \<open>Theorems: activity import\<close>
















lemma set_dc_metro_area_id [simp]:
  "strava_activity_id (set_dc_metro_area row) = strava_activity_id row"
  "a_user_id (set_dc_metro_area row) = a_user_id row"
  "distance_miles (set_dc_metro_area row) = distance_miles row"
  by (simp_all add: set_dc_metro_area_def split: option.splits)

lemma stored_row_simps [simp]:
  "strava_activity_id (stored_row userId a) = sent_id a"
  "a_user_id (stored_row userId a) = userId"
  "distance_miles (stored_row userId a) = distance_miles_sent (sa_distance a)"
  by (simp_all add: stored_row_def)







lemma rpc_recalculate_keeps [simp]:
  "db_activities (rpc_recalculate_user_mileage env userId db) = db_activities db"
  "db_users (rpc_recalculate_user_mileage env userId db) = db_users db"
  by (simp_all add: rpc_recalculate_user_mileage_def split: sum.splits)

lemma set_last_synced_keeps [simp]:
  "db_activities (set_last_synced userId t db) = db_activities db"
  by (simp add: set_last_synced_def split: option.splits)


lemma update_tokens_keeps [simp]:
  "db_activities (update_tokens userId refreshData db) = db_activities db"
  by (simp add: update_tokens_def split: option.splits)
























end
